theory Spec2Isabelle
  imports Main "HOL-Library.FSet"
begin

section \<open>Python values and the argument namespace\<close>

text \<open>
  The orchestration core of \<^verbatim>\<open>jina/peapods/pods/k8s.py\<close>. A value that the code
  tests for truth (\<^verbatim>\<open>uses_before\<close>, \<^verbatim>\<open>uses_after\<close>) or puts into a dictionary is
  Python's \<^verbatim>\<open>None\<close>, a string or an integer; \<^verbatim>\<open>None\<close>, the empty string and zero
  are false.
\<close>

datatype pyval = PyNone | PyStr string | PyInt int

fun truthy :: "pyval \<Rightarrow> bool" where
  "truthy PyNone = False"
| "truthy (PyStr s) = (s \<noteq> [])"
| "truthy (PyInt i) = (i \<noteq> 0)"

text \<open>Python's \<^verbatim>\<open>a or b\<close>: the first operand when it is true, the second otherwise.\<close>

definition py_or :: "pyval \<Rightarrow> pyval \<Rightarrow> pyval" where
  "py_or a b = (if truthy a then a else b)"

datatype error =
    AttributeError string
  | KeyError string
  | ValueError string
  | ControlPlaneError string

text \<open>
  The \<^verbatim>\<open>argparse.Namespace\<close> handed to a Pod. An attribute that the code reads with
  \<^verbatim>\<open>getattr(args, name, default)\<close> may be absent, so it is an option whose \<open>None\<close>
  means "no such attribute"; the attributes read as \<^verbatim>\<open>args.name\<close> only are plain fields.
  \<^verbatim>\<open>k8s_custom_resource_dir\<close> is only ever read with the default \<^verbatim>\<open>None\<close>, so for it
  absent and \<^verbatim>\<open>None\<close> are the same \<open>None\<close>.
\<close>

record Namespace =
  name :: string
  k8s_namespace :: string
  parallel :: "int option"
  replicas :: "int option"
  uses :: pyval
  uses_before :: "pyval option"
  uses_after :: "pyval option"
  uses_with :: "(string \<times> pyval) list option"
  noblock_on_start :: bool
  port_expose :: int
  k8s_custom_resource_dir :: "string option"

text \<open>\<^verbatim>\<open>getattr(args, attr, default)\<close>.\<close>

definition getattr :: "'a option \<Rightarrow> 'a \<Rightarrow> 'a" where
  "getattr a d = (case a of None \<Rightarrow> d | Some v \<Rightarrow> v)"

text \<open>\<^verbatim>\<open>args.attr\<close> on an attribute that may be absent: absent raises.\<close>

definition attr :: "string \<Rightarrow> 'a option \<Rightarrow> error + 'a" where
  "attr n a = (case a of None \<Rightarrow> Inl (AttributeError n) | Some v \<Rightarrow> Inr v)"

text \<open>The decimal numeral that an f-string prints for an index of \<^verbatim>\<open>enumerate\<close>.\<close>

definition digit_char :: "nat \<Rightarrow> char" where
  "digit_char d = ''0123456789'' ! d"

fun str_nat :: "nat \<Rightarrow> string" where
  "str_nat n =
     (if n < 10 then [digit_char n] else str_nat (n div 10) @ [digit_char (n mod 10)])"

declare str_nat.simps [simp del]

section \<open>The helpers of the package that the file imports\<close>

text \<open>
  \<^verbatim>\<open>k8s.py\<close> imports \<^verbatim>\<open>__default_executor__\<close> and the module
  \<^verbatim>\<open>kubernetes_deployment\<close>, whose sources lie outside \<^verbatim>\<open>k8s.py\<close>; the constant
  and the pure helpers are therefore parameters of the model.
\<close>

record k8slib =
  default_executor :: string
  to_dns_name :: "string \<Rightarrow> string"
  get_image_name :: "pyval \<Rightarrow> string"
  get_cli_params :: "Namespace \<Rightarrow> string list \<Rightarrow> string"
  dictionary_to_cli_param :: "(string \<times> pyval) list option \<Rightarrow> string"
  get_init_container_args :: "Namespace \<Rightarrow> string option"

section \<open>The control plane\<close>

text \<open>
  What the code does to the cluster is the sequence of calls it makes, oldest first.
  The arguments of \<^verbatim>\<open>deploy_service\<close> are kept as the code passes them.
\<close>

record deploy_call =
  dc_name :: string
  dc_namespace :: string
  dc_image_name :: string
  dc_container_cmd :: string
  dc_container_args :: string
  dc_logger :: string
  dc_replicas :: int
  dc_pull_policy :: string
  dc_init_container :: "string option"
  dc_custom_resource_dir :: "string option"
  dc_port_expose :: "int option"

datatype log_level = Info | Success | Error

datatype call =
    CreateNamespace string "string option"
  | DeployService deploy_call
  | ListNamespacedPod string
  | DeleteNamespacedDeployment string string
  | Log log_level string string

text \<open>One entry of \<^verbatim>\<open>list_namespaced_pod(...).items\<close>.\<close>

record pod_info =
  labels :: "string \<rightharpoonup> string"
  phase :: string
  pod_ip :: string

datatype list_outcome = Items "pod_info list" | ListRaises string

text \<open>
  A delete call returns a response with a status, or raises; the string of \<open>Raises\<close>
  is the \<^verbatim>\<open>repr\<close> of the exception, an instance of \<^verbatim>\<open>Exception\<close> as the client
  library raises them.
\<close>

datatype delete_outcome = Returns string | Raises string

text \<open>
  The behaviour of the cluster: what the call made after \<open>t\<close> earlier calls answers.
  A create or deploy call answers \<open>None\<close> when it returns and \<open>Some e\<close> when it
  raises \<open>e\<close>. Any behaviour of the client is such a family of answers.
\<close>

record cluster =
  create_resp :: "nat \<Rightarrow> string option"
  deploy_resp :: "nat \<Rightarrow> string option"
  list_resp :: "nat \<Rightarrow> list_outcome"
  delete_resp :: "nat \<Rightarrow> delete_outcome"

type_synonym 'a io = "(error + 'a) \<times> call list"

text \<open>
  An operation that may wait without end gives an option in the first place: \<open>None\<close>
  says that it has not returned within the listings it was allowed. The trace of the
  calls made so far is given in every case.
\<close>

type_synonym 'a wio = "(error + 'a) option \<times> call list"


text \<open>
  Modelled from the spec: \<^verbatim>\<open>kubernetes_deployment.deploy_service\<close>, the create call
  for a Service and Deployment pair (sections 4.2 and 6), whose source lies outside
  \<^verbatim>\<open>k8s.py\<close>. It is one call, which returns or surfaces the control-plane error
  unchanged.
\<close>

definition deploy_service :: "cluster \<Rightarrow> deploy_call \<Rightarrow> call list \<Rightarrow> unit io" where
  "deploy_service C d cs =
     (case deploy_resp C (length cs) of
        None \<Rightarrow> (Inr (), cs @ [DeployService d])
      | Some e \<Rightarrow> (Inl (ControlPlaneError e), cs @ [DeployService d]))"

section \<open>The topology builder\<close>

text \<open>The dictionary \<^verbatim>\<open>parsed_args\<close> of \<^verbatim>\<open>_parse_deployment_args\<close>.\<close>

record parsed_args =
  head_deployment :: "Namespace option"
  tail_deployment :: "Namespace option"
  deployments :: "Namespace list"

text \<open>
  \<^verbatim>\<open>self.needs = needs or set()\<close> of the constructor: no set and the empty set both
  give the empty set.
\<close>

definition needs_of :: "string fset option \<Rightarrow> string fset" where
  "needs_of n = (case n of None \<Rightarrow> {||} | Some s \<Rightarrow> s)"

text \<open>
  \<^verbatim>\<open>K8sPod._parse_deployment_args\<close> (lines 229-252); \<open>needs\<close> is \<^verbatim>\<open>self.needs\<close>.
  The head block runs, and may raise, before the tail block; \<^verbatim>\<open>copy.copy(args)\<close> with
  \<^verbatim>\<open>uses\<close> assigned is a record update; \<^verbatim>\<open>[args] * parallel\<close> is the empty list for a
  count below one.
\<close>

definition parse_deployment_args :: "k8slib \<Rightarrow> string fset \<Rightarrow> Namespace \<Rightarrow> error + parsed_args" where
  "parse_deployment_args L needs args =
     (let p = getattr (parallel args) 1;
          r = getattr (replicas args) 1;
          ub = getattr (uses_before args) PyNone
      in case (if p > 1 \<or> (fcard needs > 1 \<and> r > 1) \<or> truthy ub
               then (case attr ''uses_before'' (uses_before args) of
                       Inl e \<Rightarrow> Inl e
                     | Inr b \<Rightarrow> Inr (Some (args\<lparr>uses := py_or b (PyStr (default_executor L))\<rparr>)))
               else Inr None) of
           Inl e \<Rightarrow> Inl e
         | Inr h \<Rightarrow>
            (case (if p > 1 \<or> truthy (getattr (uses_after args) PyNone)
                   then (case attr ''uses_after'' (uses_after args) of
                           Inl e \<Rightarrow> Inl e
                         | Inr a \<Rightarrow> Inr (Some (args\<lparr>uses := py_or a (PyStr (default_executor L))\<rparr>)))
                   else Inr None) of
               Inl e \<Rightarrow> Inl e
             | Inr t \<Rightarrow>
                 Inr \<lparr>head_deployment = h, tail_deployment = t,
                      deployments = replicate (nat p) args\<rparr>))"

section \<open>One deployment unit\<close>

text \<open>The class \<^verbatim>\<open>_K8sDeployment\<close>; its attributes carry the prefix \<open>d_\<close>.\<close>

record K8sDeployment =
  d_name :: string
  d_dns_name :: string
  d_head_port_in :: int
  d_tail_port_out :: int
  d_head_zmq_identity :: string
  d_version :: string
  d_shard_id :: "int option"
  d_common_args :: Namespace
  d_deployment_args :: Namespace
  d_k8s_namespace :: string
  d_num_replicas :: int

text \<open>\<^verbatim>\<open>_K8sDeployment.__init__\<close> (lines 17-38).\<close>

definition K8sDeployment_init ::
  "k8slib \<Rightarrow> string \<Rightarrow> int \<Rightarrow> int \<Rightarrow> string \<Rightarrow> string \<Rightarrow> int option \<Rightarrow> Namespace \<Rightarrow> Namespace
     \<Rightarrow> K8sDeployment" where
  "K8sDeployment_init L nm hpi tpo zid ver sid common dargs =
     \<lparr>d_name = nm, d_dns_name = to_dns_name L nm, d_head_port_in = hpi,
      d_tail_port_out = tpo, d_head_zmq_identity = zid, d_version = ver,
      d_shard_id = sid, d_common_args = common, d_deployment_args = dargs,
      d_k8s_namespace = k8s_namespace common,
      d_num_replicas = getattr (replicas common) 1\<rparr>"

text \<open>The image \<^verbatim>\<open>f'jinaai/jina:{self.version}-py38-standard'\<close>.\<close>

definition jina_image :: "string \<Rightarrow> string" where
  "jina_image ver = ''jinaai/jina:'' @ ver @ ''-py38-standard''"

text \<open>\<^verbatim>\<open>_deploy_gateway\<close> (lines 40-53).\<close>

definition deploy_gateway :: "k8slib \<Rightarrow> cluster \<Rightarrow> K8sDeployment \<Rightarrow> call list \<Rightarrow> unit io" where
  "deploy_gateway L C u cs =
     deploy_service C
       \<lparr>dc_name = d_name u,
        dc_namespace = d_k8s_namespace u,
        dc_image_name = jina_image (d_version u),
        dc_container_cmd = ''[\"jina\"]'',
        dc_container_args =
          ''[\"gateway\", '' @ ''\"--grpc-data-requests\", ''
          @ get_cli_params L (d_common_args u) [''pod_role''] @ '']'',
        dc_logger = ''deploy_'' @ d_name u,
        dc_replicas = 1,
        dc_pull_policy = ''Always'',
        dc_init_container = None,
        dc_custom_resource_dir = None,
        dc_port_expose = Some (port_expose (d_common_args u))\<rparr> cs"

text \<open>\<^verbatim>\<open>_construct_runtime_container_args\<close> (lines 55-69).\<close>

definition construct_runtime_container_args ::
  "k8slib \<Rightarrow> Namespace \<Rightarrow> string \<Rightarrow> string \<Rightarrow> string \<Rightarrow> string" where
  "construct_runtime_container_args L dargs uses_s uses_metas uses_with_string =
     ''[\"executor\", '' @ ''\"--native\", ''
     @ ''\"--uses\", \"'' @ uses_s @ ''\", ''
     @ ''\"--grpc-data-requests\", ''
     @ ''\"--runtime-cls\", \"GRPCDataRuntime\", ''
     @ ''\"--uses-metas\", \"'' @ uses_metas @ ''\", ''
     @ uses_with_string
     @ get_cli_params L dargs [] @ '']''"

text \<open>\<^verbatim>\<open>_deploy_runtime\<close> (lines 71-105).\<close>

definition deploy_runtime :: "k8slib \<Rightarrow> cluster \<Rightarrow> K8sDeployment \<Rightarrow> call list \<Rightarrow> unit io" where
  "deploy_runtime L C u cs =
     (let image_name = get_image_name L (uses (d_deployment_args u));
          init_container_args = get_init_container_args L (d_common_args u);
          uses_metas = dictionary_to_cli_param L
            (Some [(''pea_id'', (case d_shard_id u of None \<Rightarrow> PyNone | Some i \<Rightarrow> PyInt i))]);
          uses_with_s = dictionary_to_cli_param L (uses_with (d_deployment_args u));
          uses_with_string =
            (if uses_with_s \<noteq> [] then ''\"--uses-with\", \"'' @ uses_with_s @ ''\", '' else [])
      in deploy_service C
           \<lparr>dc_name = d_dns_name u,
            dc_namespace = d_k8s_namespace u,
            dc_image_name =
              (if image_name = default_executor L then jina_image (d_version u) else image_name),
            dc_container_cmd = ''[\"jina\"]'',
            dc_container_args =
              construct_runtime_container_args L (d_deployment_args u)
                (if image_name = default_executor L then ''BaseExecutor'' else ''config.yml'')
                uses_metas uses_with_string,
            dc_logger = ''deploy_'' @ d_name u,
            dc_replicas = d_num_replicas u,
            dc_pull_policy = ''IfNotPresent'',
            dc_init_container = init_container_args,
            dc_custom_resource_dir = k8s_custom_resource_dir (d_common_args u),
            dc_port_expose = None\<rparr> cs)"

text \<open>
  The \<^verbatim>\<open>for\<close> loop of \<^verbatim>\<open>wait_start_success\<close> (lines 111-121) over the items of one
  listing, from the set \<open>ips\<close> collected so far. \<^verbatim>\<open>labels['app']\<close> raises on a pod
  without that label, before the phase is read. The length test sits inside the
  \<^verbatim>\<open>if\<close>, after the \<^verbatim>\<open>add\<close>. The result says whether the method returned and gives
  the set.
\<close>

fun scan_items :: "K8sDeployment \<Rightarrow> pod_info list \<Rightarrow> string fset \<Rightarrow> error + bool \<times> string fset" where
  "scan_items u [] ips = Inr (False, ips)"
| "scan_items u (p # ps) ips =
     (case labels p ''app'' of
        None \<Rightarrow> Inl (KeyError ''app'')
      | Some a \<Rightarrow>
          if a = d_name u \<and> phase p = ''Running''
          then (let ips' = finsert (pod_ip p) ips
                in if int (fcard ips') = d_num_replicas u then Inr (True, ips')
                   else scan_items u ps ips')
          else scan_items u ps ips)"

text \<open>
  The \<^verbatim>\<open>while True\<close> loop (lines 110-122). It may poll forever, so the first argument
  bounds the number of listings: \<open>None\<close> says that the method has not returned within
  them, and the trace then holds the list calls made so far. The set is created once,
  before the loop, and handed from one listing to the next. On return the final set is
  given with the trace. The pause between two listings (\<^verbatim>\<open>time.sleep\<close>) has no
  counterpart: the model has no clock.
\<close>

fun wait_loop :: "nat \<Rightarrow> cluster \<Rightarrow> K8sDeployment \<Rightarrow> string fset \<Rightarrow> call list \<Rightarrow> (string fset) wio" where
  "wait_loop 0 C u ips cs = (None, cs)"
| "wait_loop (Suc n) C u ips cs =
     (let cs' = cs @ [ListNamespacedPod (d_k8s_namespace u)]
      in case list_resp C (length cs) of
           ListRaises e \<Rightarrow> (Some (Inl (ControlPlaneError e)), cs')
         | Items items \<Rightarrow>
             (case scan_items u items ips of
                Inl e \<Rightarrow> (Some (Inl e), cs')
              | Inr (True, ips') \<Rightarrow> (Some (Inr ips'), cs')
              | Inr (False, ips') \<Rightarrow> wait_loop n C u ips' cs'))"

text \<open>\<^verbatim>\<open>_K8sDeployment.wait_start_success\<close> (lines 107-122): the method returns nothing.\<close>

definition wait_start_success :: "nat \<Rightarrow> cluster \<Rightarrow> K8sDeployment \<Rightarrow> call list \<Rightarrow> unit wio" where
  "wait_start_success fuel C u cs =
     (case wait_loop fuel C u {||} cs of
        (None, cs') \<Rightarrow> (None, cs')
      | (Some (Inl e), cs') \<Rightarrow> (Some (Inl e), cs')
      | (Some (Inr ips), cs') \<Rightarrow> (Some (Inr ()), cs'))"

text \<open>
  \<^verbatim>\<open>_K8sDeployment.start\<close> (lines 124-131); it returns the unit itself, unchanged. The
  deploy call comes first, so it is in the trace also when the wait that follows has
  not returned.
\<close>

definition start :: "k8slib \<Rightarrow> nat \<Rightarrow> cluster \<Rightarrow> K8sDeployment \<Rightarrow> call list \<Rightarrow> unit wio" where
  "start L fuel C u cs =
     (case (if d_name u = ''gateway'' then deploy_gateway L C u cs else deploy_runtime L C u cs) of
        (Inl e, cs') \<Rightarrow> (Some (Inl e), cs')
      | (Inr _, cs') \<Rightarrow>
          if \<not> noblock_on_start (d_common_args u) then wait_start_success fuel C u cs'
          else (Some (Inr ()), cs'))"

text \<open>
  \<^verbatim>\<open>_K8sDeployment.close\<close> (lines 133-149). The \<^verbatim>\<open>try\<close> covers the delete call and the
  read of the status; \<^verbatim>\<open>except Exception\<close> logs and does not raise again.
\<close>

definition close :: "cluster \<Rightarrow> K8sDeployment \<Rightarrow> call list \<Rightarrow> unit io" where
  "close C u cs =
     (let cs' = cs @ [DeleteNamespacedDeployment (d_name u) (d_k8s_namespace u)];
          logger = ''close_'' @ d_name u
      in case delete_resp C (length cs) of
           Returns st \<Rightarrow>
             if st = ''Success''
             then (Inr (), cs' @ [Log Success logger ('' Successful deletion of deployment '' @ d_name u)])
             else (Inr (), cs' @ [Log Error logger
                     ('' Deletion of deployment '' @ d_name u @ '' unsuccessful with status '' @ st)])
         | Raises ex \<Rightarrow>
             (Inr (), cs' @ [Log Error logger
                     ('' Error deleting deployment '' @ d_name u @ '': '' @ ex)]))"

section \<open>The Pod\<close>

text \<open>
  The class \<^verbatim>\<open>K8sPod\<close>; its attributes carry the prefix \<open>p_\<close>. The last field is the
  queue of exit callbacks that the Pod inherits from its base class \<^verbatim>\<open>ExitFIFO\<close>
  (line 13), oldest entry first.
\<close>

record K8sPod =
  p_args :: Namespace
  p_needs :: "string fset"
  p_deployment_args :: parsed_args
  p_version :: string
  p_fixed_head_port_in :: int
  p_fixed_tail_port_out :: int
  p_k8s_head_deployment :: "K8sDeployment option"
  p_k8s_tail_deployment :: "K8sDeployment option"
  p_k8s_deployments :: "K8sDeployment list"
  p_exit_callbacks :: "K8sDeployment list"

type_synonym pod_io = "(error + unit) \<times> K8sPod \<times> call list"

type_synonym pod_wio = "(error + unit) option \<times> K8sPod \<times> call list"

text \<open>
  \<^verbatim>\<open>_get_base_executor_version\<close> (lines 368-377): \<open>tags\<close> are the tag names that the
  registry answers, \<open>jina_version\<close> is \<^verbatim>\<open>jina.__version__\<close>.
\<close>

definition get_base_executor_version :: "string list \<Rightarrow> string \<Rightarrow> string" where
  "get_base_executor_version tags jina_version =
     (if jina_version \<in> set tags then jina_version else ''master'')"

text \<open>
  The loop of the constructor (lines 204-222) that builds the shard units: \<open>pname\<close> is
  \<^verbatim>\<open>self.name\<close>, \<open>ds\<close> is \<^verbatim>\<open>self.deployment_args['deployments']\<close>. Every unit is
  built with \<^verbatim>\<open>shard_id=None\<close>.
\<close>

definition shard_name :: "string \<Rightarrow> nat \<Rightarrow> nat \<Rightarrow> string" where
  "shard_name pname n i = (if n > 1 then pname @ ''-'' @ str_nat i else pname)"

definition build_shards :: "k8slib \<Rightarrow> string \<Rightarrow> string \<Rightarrow> Namespace \<Rightarrow> Namespace list \<Rightarrow> K8sDeployment list" where
  "build_shards L pname ver common ds =
     map (\<lambda>(i, a). K8sDeployment_init L (shard_name pname (length ds) i)
                      8081 8082 [] ver None common a)
         (enumerate 0 ds)"

text \<open>
  \<^verbatim>\<open>K8sPod.__init__\<close> (lines 166-222). \<^verbatim>\<open>self.name\<close> is a property of \<^verbatim>\<open>BasePod\<close>,
  the Pod's base name: the \<^verbatim>\<open>name\<close> of its arguments. \<^verbatim>\<open>head_zmq_identity\<close> is the
  empty byte string (line 348).
\<close>

definition K8sPod_init ::
  "k8slib \<Rightarrow> string list \<Rightarrow> string \<Rightarrow> Namespace \<Rightarrow> string fset option \<Rightarrow> error + K8sPod" where
  "K8sPod_init L tags jina_version args needs =
     (case parse_deployment_args L (needs_of needs) args of
        Inl e \<Rightarrow> Inl e
      | Inr da \<Rightarrow>
          (let ver = get_base_executor_version tags jina_version
           in Inr \<lparr>p_args = args,
                   p_needs = needs_of needs,
                   p_deployment_args = da,
                   p_version = ver,
                   p_fixed_head_port_in = 8081,
                   p_fixed_tail_port_out = 8082,
                   p_k8s_head_deployment =
                     (case head_deployment da of
                        None \<Rightarrow> None
                      | Some h \<Rightarrow> Some (K8sDeployment_init L (name args @ ''-head'')
                                          8081 8082 [] ver None args h)),
                   p_k8s_tail_deployment =
                     (case tail_deployment da of
                        None \<Rightarrow> None
                      | Some t \<Rightarrow> Some (K8sDeployment_init L (name args @ ''-tail'')
                                          8081 8082 [] ver None args t)),
                   p_k8s_deployments = build_shards L (name args) ver args (deployments da),
                   p_exit_callbacks = []\<rparr>))"





text \<open>
  Modelled from the spec: the release of the exit callbacks by \<^verbatim>\<open>ExitFIFO\<close>, a class
  whose source lies outside \<^verbatim>\<open>k8s.py\<close>. Section 9: each recorded resource is closed
  in turn, continuing past individual close failures. The order of release is not the
  one of section 4.3: the class is an exit stack made first-in first-out, as its name
  says, so the entry recorded first is released first. The queue is given oldest entry
  first. Each entry is released by the unit's \<^verbatim>\<open>__exit__\<close> (line 154), that is
  \<^verbatim>\<open>close\<close>; an error of a release is kept and raised at the end.
\<close>

fun unwind :: "cluster \<Rightarrow> K8sDeployment list \<Rightarrow> error option \<Rightarrow> call list \<Rightarrow> error option \<times> call list" where
  "unwind C [] pend cs = (pend, cs)"
| "unwind C (u # us) pend cs =
     (case close C u cs of
        (Inl e, cs') \<Rightarrow> unwind C us (Some e) cs'
      | (Inr _, cs') \<Rightarrow> unwind C us pend cs')"

text \<open>
  Modelled from the spec: \<^verbatim>\<open>close\<close> of the Pod, inherited from \<^verbatim>\<open>ExitFIFO\<close>.
  Section 4.3: it releases every recorded unit and leaves the namespace alone; the
  queue is empty afterwards. The Pod's own \<^verbatim>\<open>__exit__\<close> (lines 254-256) adds
  \<^verbatim>\<open>join\<close>, which does nothing.
\<close>

definition K8sPod_close :: "cluster \<Rightarrow> K8sPod \<Rightarrow> call list \<Rightarrow> pod_io" where
  "K8sPod_close C p cs =
     (case unwind C (p_exit_callbacks p) None cs of
        (pend, cs') \<Rightarrow>
          ((case pend of None \<Rightarrow> Inr () | Some e \<Rightarrow> Inl e), p\<lparr>p_exit_callbacks := []\<rparr>, cs'))"

text \<open>The loop \<^verbatim>\<open>for p in self.k8s_deployments\<close> of \<^verbatim>\<open>wait_start_success\<close> (lines 300-301).\<close>

fun wait_each :: "nat \<Rightarrow> cluster \<Rightarrow> K8sDeployment list \<Rightarrow> call list \<Rightarrow> unit wio" where
  "wait_each fuel C [] cs = (Some (Inr ()), cs)"
| "wait_each fuel C (u # us) cs =
     (case wait_start_success fuel C u cs of
        (None, cs') \<Rightarrow> (None, cs')
      | (Some (Inl e), cs') \<Rightarrow> (Some (Inl e), cs')
      | (Some (Inr _), cs') \<Rightarrow> wait_each fuel C us cs')"

text \<open>The body of the \<^verbatim>\<open>try\<close> of \<^verbatim>\<open>K8sPod.wait_start_success\<close> (lines 298-303).\<close>

definition wait_body :: "nat \<Rightarrow> cluster \<Rightarrow> K8sPod \<Rightarrow> call list \<Rightarrow> unit wio" where
  "wait_body fuel C p cs =
     (case (case p_k8s_head_deployment p of
              None \<Rightarrow> (Some (Inr ()), cs)
            | Some h \<Rightarrow> wait_start_success fuel C h cs) of
        (None, cs1) \<Rightarrow> (None, cs1)
      | (Some (Inl e), cs1) \<Rightarrow> (Some (Inl e), cs1)
      | (Some (Inr _), cs1) \<Rightarrow>
         (case wait_each fuel C (p_k8s_deployments p) cs1 of
            (None, cs2) \<Rightarrow> (None, cs2)
          | (Some (Inl e), cs2) \<Rightarrow> (Some (Inl e), cs2)
          | (Some (Inr _), cs2) \<Rightarrow>
             (case p_k8s_tail_deployment p of
                None \<Rightarrow> (Some (Inr ()), cs2)
              | Some t \<Rightarrow> wait_start_success fuel C t cs2)))"

text \<open>
  \<^verbatim>\<open>K8sPod.wait_start_success\<close> (lines 291-306). The bare \<^verbatim>\<open>except\<close> closes the Pod
  and raises the caught error again; were \<^verbatim>\<open>close\<close> itself to raise, that error would
  leave the handler instead. While a wait has not returned, nothing is closed.
\<close>

definition K8sPod_wait_start_success :: "nat \<Rightarrow> cluster \<Rightarrow> K8sPod \<Rightarrow> call list \<Rightarrow> pod_wio" where
  "K8sPod_wait_start_success fuel C p cs =
     (if \<not> noblock_on_start (p_args p)
      then (Some (Inl (ValueError ''wait_start_success should only be called when noblock_on_start is set to True'')), p, cs)
      else (case wait_body fuel C p cs of
              (None, cs1) \<Rightarrow> (None, p, cs1)
            | (Some (Inl e), cs1) \<Rightarrow>
                (case K8sPod_close C p cs1 of
                   (Inl e', p', cs2) \<Rightarrow> (Some (Inl e'), p', cs2)
                 | (Inr _, p', cs2) \<Rightarrow> (Some (Inl e), p', cs2))
            | (Some (Inr _), cs1) \<Rightarrow> (Some (Inr ()), p, cs1)))"

section \<open>Reading a trace and a listing\<close>

text \<open>
  Projections used to state what a run did: the \<^verbatim>\<open>deploy_service\<close> calls of a
  trace, and a trace without its log entries.
\<close>

fun deploy_calls :: "call list \<Rightarrow> deploy_call list" where
  "deploy_calls [] = []"
| "deploy_calls (DeployService d # cs) = d # deploy_calls cs"
| "deploy_calls (c # cs) = deploy_calls cs"

fun is_log :: "call \<Rightarrow> bool" where
  "is_log (Log l n m) = True"
| "is_log c = False"

definition non_log :: "call list \<Rightarrow> call list" where
  "non_log cs = filter (\<lambda>c. \<not> is_log c) cs"

text \<open>
  The name under which \<^verbatim>\<open>start\<close> deploys a unit (lines 42 and 93), and the delete
  call that releases a unit.
\<close>

definition deployed_as :: "K8sDeployment \<Rightarrow> string" where
  "deployed_as u = (if d_name u = ''gateway'' then d_name u else d_dns_name u)"

definition delete_call :: "K8sDeployment \<Rightarrow> call" where
  "delete_call u = DeleteNamespacedDeployment (d_name u) (d_k8s_namespace u)"

text \<open>
  The readiness criterion in the words of the specification (section 4.2): the
  distinct IPs of the pods of one listing whose label \<^verbatim>\<open>app\<close> is the unit's name and
  whose phase is \<^verbatim>\<open>Running\<close>; and the IPs so observed in the \<open>k\<close> listings that start
  with the call made after \<open>t\<close> earlier calls.
\<close>

definition running_ips :: "K8sDeployment \<Rightarrow> pod_info list \<Rightarrow> string fset" where
  "running_ips u items =
     fset_of_list (map pod_ip
       (filter (\<lambda>p. labels p ''app'' = Some (d_name u) \<and> phase p = ''Running'') items))"

fun items_of :: "list_outcome \<Rightarrow> pod_info list" where
  "items_of (Items xs) = xs"
| "items_of (ListRaises e) = []"

fun observed :: "cluster \<Rightarrow> K8sDeployment \<Rightarrow> nat \<Rightarrow> nat \<Rightarrow> string fset" where
  "observed C u t 0 = {||}"
| "observed C u t (Suc k) = running_ips u (items_of (list_resp C t)) |\<union>| observed C u (Suc t) k"

text \<open>A listing that answers, with every pod carrying the label \<^verbatim>\<open>app\<close>.\<close>

fun labelled :: "list_outcome \<Rightarrow> bool" where
  "labelled (Items xs) = list_all (\<lambda>p. labels p ''app'' \<noteq> None) xs"
| "labelled (ListRaises e) = False"

text \<open>The units of a Pod in the order head, shards, tail.\<close>

definition units_in_order :: "K8sPod \<Rightarrow> K8sDeployment list" where
  "units_in_order p =
     (case p_k8s_head_deployment p of None \<Rightarrow> [] | Some h \<Rightarrow> [h])
     @ p_k8s_deployments p
     @ (case p_k8s_tail_deployment p of None \<Rightarrow> [] | Some t \<Rightarrow> [t])"

section \<open>Example inputs\<close>

text \<open>
  A stand-in for the helper module, and the arguments of the sharded Pod of
  \<^verbatim>\<open>tests/k8s/test_example_index_flow.py\<close> (three shards, two replicas, a merger
  after the shards), in deferred mode.
\<close>

definition ex_lib :: k8slib where
  "ex_lib =
     \<lparr>default_executor = ''BaseExecutor'',
      to_dns_name = map (\<lambda>c. if c = CHR ''_'' \<or> c = CHR ''/'' then CHR ''-'' else c),
      get_image_name = (\<lambda>v. case v of PyStr s \<Rightarrow> s | _ \<Rightarrow> ''BaseExecutor''),
      get_cli_params = (\<lambda>a skip. []),
      dictionary_to_cli_param = (\<lambda>d. []),
      get_init_container_args = (\<lambda>a. None)\<rparr>"

definition ex_args :: Namespace where
  "ex_args =
     \<lparr>name = ''image_data'', k8s_namespace = ''test-flow'',
      parallel = Some 3, replicas = Some 2,
      uses = PyStr ''test-executor'',
      uses_before = Some PyNone, uses_after = Some (PyStr ''merger''),
      uses_with = None, noblock_on_start = True, port_expose = 8080,
      k8s_custom_resource_dir = None\<rparr>"

text \<open>The same arguments with both counts zero.\<close>

definition ex_args_invalid :: Namespace where
  "ex_args_invalid = ex_args\<lparr>parallel := Some 0, replicas := Some 0\<rparr>"

text \<open>The first shard unit of that Pod, and a gateway unit configured with two replicas.\<close>

definition ex_unit :: K8sDeployment where
  "ex_unit = K8sDeployment_init ex_lib ''image_data-0'' 8081 8082 [] ''master'' None ex_args ex_args"

definition ex_gateway :: K8sDeployment where
  "ex_gateway =
     K8sDeployment_init ex_lib ''gateway'' 8081 8082 [] ''master'' None
       (ex_args\<lparr>name := ''gateway''\<rparr>) (ex_args\<lparr>name := ''gateway''\<rparr>)"

text \<open>
  Pods of the first shard, and two clusters. The first lists a pending pod twice and
  two running pods from the third listing on; every create, deploy and delete call
  succeeds. The second lists one running pod, and from then on a different running
  pod alone.
\<close>

definition ex_pod_info :: "string \<Rightarrow> string \<Rightarrow> pod_info" where
  "ex_pod_info ph ip = \<lparr>labels = [''app'' \<mapsto> ''image_data-0''], phase = ph, pod_ip = ip\<rparr>"

definition ex_cluster :: cluster where
  "ex_cluster =
     \<lparr>create_resp = (\<lambda>t. None),
      deploy_resp = (\<lambda>t. None),
      list_resp = (\<lambda>t. if t < 2 then Items [ex_pod_info ''Pending'' ''10.0.0.1'']
                        else Items [ex_pod_info ''Running'' ''10.0.0.1'',
                                    ex_pod_info ''Running'' ''10.0.0.2'']),
      delete_resp = (\<lambda>t. Returns ''Success'')\<rparr>"

definition ex_churn :: cluster where
  "ex_churn =
     \<lparr>create_resp = (\<lambda>t. None),
      deploy_resp = (\<lambda>t. None),
      list_resp = (\<lambda>t. if t = 0 then Items [ex_pod_info ''Running'' ''10.0.0.1'']
                        else Items [ex_pod_info ''Running'' ''10.0.0.2'']),
      delete_resp = (\<lambda>t. Raises ''ApiException(404)'')\<rparr>"

text \<open>
  The Pod that the constructor builds from the example arguments: a head with the
  default executor, three shards, a tail with the merger. Then the same Pod with all
  five units in the queue of exit callbacks, as \<^verbatim>\<open>start\<close> leaves it; and a cluster on which the
  first listing shows the head's two pods running, the second those of the first shard,
  and every later listing raises.
\<close>

definition ex_head :: K8sDeployment where
  "ex_head = K8sDeployment_init ex_lib ''image_data-head'' 8081 8082 [] ''master'' None ex_args
               (ex_args\<lparr>uses := PyStr ''BaseExecutor''\<rparr>)"

definition ex_tail :: K8sDeployment where
  "ex_tail = K8sDeployment_init ex_lib ''image_data-tail'' 8081 8082 [] ''master'' None ex_args
               (ex_args\<lparr>uses := PyStr ''merger''\<rparr>)"

definition ex_shard :: "string \<Rightarrow> K8sDeployment" where
  "ex_shard nm = K8sDeployment_init ex_lib nm 8081 8082 [] ''master'' None ex_args ex_args"

definition ex_pod :: K8sPod where
  "ex_pod =
     \<lparr>p_args = ex_args,
      p_needs = {||},
      p_deployment_args =
        \<lparr>head_deployment = Some (ex_args\<lparr>uses := PyStr ''BaseExecutor''\<rparr>),
         tail_deployment = Some (ex_args\<lparr>uses := PyStr ''merger''\<rparr>),
         deployments = [ex_args, ex_args, ex_args]\<rparr>,
      p_version = ''master'',
      p_fixed_head_port_in = 8081,
      p_fixed_tail_port_out = 8082,
      p_k8s_head_deployment = Some ex_head,
      p_k8s_tail_deployment = Some ex_tail,
      p_k8s_deployments =
        [ex_shard ''image_data-0'', ex_shard ''image_data-1'', ex_shard ''image_data-2''],
      p_exit_callbacks = []\<rparr>"

definition ex_started :: K8sPod where
  "ex_started =
     ex_pod\<lparr>p_exit_callbacks :=
       [ex_head, ex_shard ''image_data-0'', ex_shard ''image_data-1'',
        ex_shard ''image_data-2'', ex_tail]\<rparr>"

definition ex_running :: "string \<Rightarrow> string \<Rightarrow> pod_info" where
  "ex_running nm ip = \<lparr>labels = [''app'' \<mapsto> nm], phase = ''Running'', pod_ip = ip\<rparr>"

definition ex_failing :: cluster where
  "ex_failing =
     \<lparr>create_resp = (\<lambda>t. None),
      deploy_resp = (\<lambda>t. None),
      list_resp = (\<lambda>t. if t = 0
                        then Items [ex_running ''image_data-head'' ''10.0.1.1'',
                                    ex_running ''image_data-head'' ''10.0.1.2'']
                        else if t = 1
                        then Items [ex_running ''image_data-0'' ''10.0.2.1'',
                                    ex_running ''image_data-0'' ''10.0.2.2'']
                        else ListRaises ''ApiException(500)''),
      delete_resp = (\<lambda>t. if t = 5 then Raises ''ApiException(404)'' else Returns ''Success'')\<rparr>"

text \<open>
  A gateway unit and a shard unit in blocking mode, a cluster that never lists a pod,
  and a cluster that lists, every time, two running pods labelled with the DNS form of
  the first shard's name.
\<close>

definition ex_blocking_gateway :: K8sDeployment where
  "ex_blocking_gateway =
     K8sDeployment_init ex_lib ''gateway'' 8081 8082 [] ''master'' None
       (ex_args\<lparr>name := ''gateway'', noblock_on_start := False\<rparr>)
       (ex_args\<lparr>name := ''gateway'', noblock_on_start := False\<rparr>)"

definition ex_blocking_unit :: K8sDeployment where
  "ex_blocking_unit =
     K8sDeployment_init ex_lib ''image_data-0'' 8081 8082 [] ''master'' None
       (ex_args\<lparr>noblock_on_start := False\<rparr>) (ex_args\<lparr>noblock_on_start := False\<rparr>)"

definition ex_never :: cluster where
  "ex_never =
     \<lparr>create_resp = (\<lambda>t. None),
      deploy_resp = (\<lambda>t. None),
      list_resp = (\<lambda>t. Items []),
      delete_resp = (\<lambda>t. Returns ''Success'')\<rparr>"

definition ex_dns_labels :: cluster where
  "ex_dns_labels =
     \<lparr>create_resp = (\<lambda>t. None),
      deploy_resp = (\<lambda>t. None),
      list_resp = (\<lambda>t. Items [ex_running ''image-data-0'' ''10.0.0.1'',
                               ex_running ''image-data-0'' ''10.0.0.2'']),
      delete_resp = (\<lambda>t. Returns ''Success'')\<rparr>"

section \<open>The topology builder: results\<close>

text \<open>
  With both image attributes present the builder cannot raise, and its plan is read off
  the arguments.
\<close>

lemma parse_total:
  assumes "uses_before args = Some ub" "uses_after args = Some ua"
  shows "parse_deployment_args L needs args =
     Inr \<lparr>head_deployment =
            (if getattr (parallel args) 1 > 1
                 \<or> (fcard needs > 1 \<and> getattr (replicas args) 1 > 1) \<or> truthy ub
             then Some (args\<lparr>uses := py_or ub (PyStr (default_executor L))\<rparr>) else None),
          tail_deployment =
            (if getattr (parallel args) 1 > 1 \<or> truthy ua
             then Some (args\<lparr>uses := py_or ua (PyStr (default_executor L))\<rparr>) else None),
          deployments = replicate (nat (getattr (parallel args) 1)) args\<rparr>"
  using assms by (simp add: parse_deployment_args_def Let_def attr_def getattr_def)

text \<open>
  C2. For every argument set with \<^verbatim>\<open>parallel\<close> at least one (and carrying the
  attributes \<^verbatim>\<open>uses_before\<close> and \<^verbatim>\<open>uses_after\<close>), \<^verbatim>\<open>_parse_deployment_args\<close> returns
  a plan with exactly \<^verbatim>\<open>parallel\<close> shard arguments, each the given arguments; with a
  head exactly when \<^verbatim>\<open>parallel > 1\<close>, or \<^verbatim>\<open>len(needs) > 1\<close> and \<^verbatim>\<open>replicas > 1\<close>, or
  \<^verbatim>\<open>uses_before\<close> is set; with a tail exactly when \<^verbatim>\<open>parallel > 1\<close> or \<^verbatim>\<open>uses_after\<close>
  is set. The head is the arguments with \<^verbatim>\<open>uses\<close> replaced by \<^verbatim>\<open>uses_before\<close> when
  set and by the default executor otherwise; the tail likewise with \<^verbatim>\<open>uses_after\<close>.
  "Set" is Python's truth of the value: neither \<^verbatim>\<open>None\<close> nor the empty string.
\<close>

theorem parse_deployment_args_shape:
  assumes "1 \<le> getattr (parallel args) 1"
      and "uses_before args = Some ub" and "uses_after args = Some ua"
  shows "\<exists>r. parse_deployment_args L needs args = Inr r
     \<and> deployments r = replicate (nat (getattr (parallel args) 1)) args
     \<and> int (length (deployments r)) = getattr (parallel args) 1
     \<and> ((head_deployment r \<noteq> None) =
          (getattr (parallel args) 1 > 1
           \<or> (fcard needs > 1 \<and> getattr (replicas args) 1 > 1)
           \<or> truthy ub))
     \<and> ((tail_deployment r \<noteq> None) = (getattr (parallel args) 1 > 1 \<or> truthy ua))
     \<and> (\<forall>h. head_deployment r = Some h \<longrightarrow>
           h = args\<lparr>uses := (if truthy ub then ub else PyStr (default_executor L))\<rparr>)
     \<and> (\<forall>t. tail_deployment r = Some t \<longrightarrow>
           t = args\<lparr>uses := (if truthy ua then ua else PyStr (default_executor L))\<rparr>)"
  using assms by (simp add: parse_total py_or_def)

theorem parse_deployment_args_shape_witness:
  "1 \<le> getattr (parallel ex_args) 1
   \<and> uses_before ex_args = Some PyNone \<and> uses_after ex_args = Some (PyStr ''merger'')
   \<and> (\<exists>r. parse_deployment_args ex_lib {||} ex_args = Inr r
        \<and> length (deployments r) = 3
        \<and> head_deployment r = Some (ex_args\<lparr>uses := PyStr ''BaseExecutor''\<rparr>)
        \<and> tail_deployment r = Some (ex_args\<lparr>uses := PyStr ''merger''\<rparr>))"
proof -
  have h1: "1 \<le> getattr (parallel ex_args) 1" by (simp add: ex_args_def getattr_def)
  have h2: "uses_before ex_args = Some PyNone" by (simp add: ex_args_def)
  have h3: "uses_after ex_args = Some (PyStr ''merger'')" by (simp add: ex_args_def)
  from parse_deployment_args_shape [OF h1 h2 h3, of ex_lib "{||}"]
  obtain r where r: "parse_deployment_args ex_lib {||} ex_args = Inr r"
     "int (length (deployments r)) = getattr (parallel ex_args) 1"
     "(head_deployment r \<noteq> None) =
        (getattr (parallel ex_args) 1 > 1
         \<or> (fcard ({||} :: string fset) > 1 \<and> getattr (replicas ex_args) 1 > 1)
         \<or> truthy PyNone)"
     "(tail_deployment r \<noteq> None) =
        (getattr (parallel ex_args) 1 > 1 \<or> truthy (PyStr ''merger''))"
     "\<forall>h. head_deployment r = Some h \<longrightarrow>
        h = ex_args\<lparr>uses := (if truthy PyNone then PyNone
                               else PyStr (default_executor ex_lib))\<rparr>"
     "\<forall>t. tail_deployment r = Some t \<longrightarrow>
        t = ex_args\<lparr>uses := (if truthy (PyStr ''merger'') then PyStr ''merger''
                               else PyStr (default_executor ex_lib))\<rparr>"
    by blast
  have l: "length (deployments r) = 3"
    using r(2) by (simp add: ex_args_def getattr_def)
  have hd: "head_deployment r = Some (ex_args\<lparr>uses := PyStr ''BaseExecutor''\<rparr>)"
    using r(3,5) by (auto simp add: ex_args_def getattr_def ex_lib_def)
  have tl: "tail_deployment r = Some (ex_args\<lparr>uses := PyStr ''merger''\<rparr>)"
    using r(4,6) by (auto simp add: ex_args_def getattr_def ex_lib_def)
  show ?thesis using h1 h2 h3 r(1) l hd tl by blast
qed

lemma build_shards_length: "length (build_shards L pn ver common ds) = length ds"
  by (simp add: build_shards_def)

lemma K8sPod_init_total:
  assumes "uses_before args = Some ub" "uses_after args = Some ua"
  shows "\<exists>p. K8sPod_init L tags jv args needs = Inr p
     \<and> p_k8s_deployments p =
         build_shards L (name args) (get_base_executor_version tags jv) args
           (replicate (nat (getattr (parallel args) 1)) args)"
  using assms by (simp add: K8sPod_init_def parse_total [OF assms] Let_def)

text \<open>
  The shard units of any Pod: their names carry the index when there is more than one,
  and every one of them has the shard id \<^verbatim>\<open>None\<close>.
\<close>

lemma build_shards_nth:
  assumes "i < length ds"
  shows "build_shards L pn ver common ds ! i =
     K8sDeployment_init L (shard_name pn (length ds) i) 8081 8082 [] ver None common (ds ! i)"
  using assms by (simp add: build_shards_def nth_enumerate_eq)

lemma build_shards_shard_id:
  "map d_shard_id (build_shards L pn ver common ds) = replicate (length ds) None"
  by (rule nth_equalityI) (simp_all add: build_shards_length build_shards_nth K8sDeployment_init_def)

lemma build_shards_names:
  "map d_name (build_shards L pn ver common ds) =
     map (\<lambda>i. if length ds > 1 then pn @ ''-'' @ str_nat i else pn) [0..<length ds]"
  by (rule nth_equalityI)
     (simp_all add: build_shards_length build_shards_nth K8sDeployment_init_def shard_name_def)

text \<open>
  C3. The shard units that the constructor builds for the sharded example Pod
  (\<^verbatim>\<open>parallel = 3\<close>): their names are the base name with the indices 0, 1 and 2, and
  the shard id of each is \<^verbatim>\<open>None\<close>, not its index (line 218 passes
  \<^verbatim>\<open>shard_id=None\<close>).
\<close>

theorem shard_ids_all_none:
  "(case K8sPod_init ex_lib [] ''2.1.0'' ex_args None of
      Inl e \<Rightarrow> []
    | Inr p \<Rightarrow> map (\<lambda>u. (d_name u, d_shard_id u)) (p_k8s_deployments p))
   = [(''image_data-0'', None), (''image_data-1'', None), (''image_data-2'', None)]"
  by (simp add: K8sPod_init_def parse_deployment_args_def ex_args_def ex_lib_def Let_def
        getattr_def attr_def py_or_def needs_of_def build_shards_def K8sDeployment_init_def
        shard_name_def str_nat.simps digit_char_def enumerate_eq_zip upt_rec numeral_3_eq_3)

text \<open>
  C4 as stated fails: with \<^verbatim>\<open>parallel = 0\<close> and \<^verbatim>\<open>replicas = 0\<close> the
  builder returns a plan (no shard, a tail for the merger) and the constructor returns
  a Pod; nothing is raised.
\<close>

theorem invalid_counts_counterexample:
  "parse_deployment_args ex_lib {||} ex_args_invalid =
     Inr \<lparr>head_deployment = None,
          tail_deployment = Some (ex_args_invalid\<lparr>uses := PyStr ''merger''\<rparr>),
          deployments = []\<rparr>
   \<and> \<not> isl (K8sPod_init ex_lib [] ''2.1.0'' ex_args_invalid None)"
  by (simp add: K8sPod_init_def parse_deployment_args_def ex_args_invalid_def ex_args_def
        ex_lib_def Let_def getattr_def attr_def py_or_def needs_of_def)

text \<open>
  C4, amended. For every argument set with \<^verbatim>\<open>parallel < 1\<close> or \<^verbatim>\<open>replicas < 1\<close> (and
  carrying the attributes \<^verbatim>\<open>uses_before\<close> and \<^verbatim>\<open>uses_after\<close>) the counts are not
  checked: \<^verbatim>\<open>_parse_deployment_args\<close> returns a plan with \<^verbatim>\<open>max(0, parallel)\<close> shard
  arguments, and the constructor returns a Pod with that plan, as many shard units, and
  every shard unit's replica count as given. Construction makes no control-plane call:
  it takes and returns no trace.
\<close>

theorem invalid_counts_accepted:
  assumes "getattr (parallel args) 1 < 1 \<or> getattr (replicas args) 1 < 1"
      and "uses_before args = Some ub" and "uses_after args = Some ua"
  shows "\<exists>r p. parse_deployment_args L (needs_of needs) args = Inr r
     \<and> int (length (deployments r)) = max 0 (getattr (parallel args) 1)
     \<and> K8sPod_init L tags jv args needs = Inr p
     \<and> p_deployment_args p = r
     \<and> length (p_k8s_deployments p) = length (deployments r)
     \<and> (\<forall>u \<in> set (p_k8s_deployments p). d_num_replicas u = getattr (replicas args) 1)"
proof -
  let ?r = "\<lparr>head_deployment =
            (if getattr (parallel args) 1 > 1
                 \<or> (fcard (needs_of needs) > 1 \<and> getattr (replicas args) 1 > 1) \<or> truthy ub
             then Some (args\<lparr>uses := py_or ub (PyStr (default_executor L))\<rparr>) else None),
          tail_deployment =
            (if getattr (parallel args) 1 > 1 \<or> truthy ua
             then Some (args\<lparr>uses := py_or ua (PyStr (default_executor L))\<rparr>) else None),
          deployments = replicate (nat (getattr (parallel args) 1)) args\<rparr>"
  have r: "parse_deployment_args L (needs_of needs) args = Inr ?r"
    by (rule parse_total [OF assms(2,3)])
  obtain p where p: "K8sPod_init L tags jv args needs = Inr p"
    "p_k8s_deployments p =
         build_shards L (name args) (get_base_executor_version tags jv) args
           (replicate (nat (getattr (parallel args) 1)) args)"
    using K8sPod_init_total [OF assms(2,3)] by blast
  have da: "p_deployment_args p = ?r"
    using p(1) r by (auto simp add: K8sPod_init_def Let_def)
  have len: "length (p_k8s_deployments p) = length (deployments ?r)"
    by (simp add: p(2) build_shards_length)
  have rep: "\<forall>u \<in> set (p_k8s_deployments p). d_num_replicas u = getattr (replicas args) 1"
    by (auto simp add: p(2) build_shards_def K8sDeployment_init_def)
  have l: "int (length (deployments ?r)) = max 0 (getattr (parallel args) 1)" by simp
  show ?thesis using r p(1) da len rep l by blast
qed

theorem invalid_counts_accepted_witness:
  "(getattr (parallel ex_args_invalid) 1 < 1 \<or> getattr (replicas ex_args_invalid) 1 < 1)
   \<and> uses_before ex_args_invalid = Some PyNone
   \<and> uses_after ex_args_invalid = Some (PyStr ''merger'')
   \<and> (\<exists>r p. parse_deployment_args ex_lib (needs_of None) ex_args_invalid = Inr r
         \<and> deployments r = []
         \<and> K8sPod_init ex_lib [] ''2.1.0'' ex_args_invalid None = Inr p
         \<and> p_k8s_deployments p = [])"
proof -
  have h1: "getattr (parallel ex_args_invalid) 1 < 1 \<or> getattr (replicas ex_args_invalid) 1 < 1"
    by (simp add: ex_args_invalid_def getattr_def)
  have h2: "uses_before ex_args_invalid = Some PyNone"
    by (simp add: ex_args_invalid_def ex_args_def)
  have h3: "uses_after ex_args_invalid = Some (PyStr ''merger'')"
    by (simp add: ex_args_invalid_def ex_args_def)
  from invalid_counts_accepted [OF h1 h2 h3, of ex_lib None "[]" "''2.1.0''"]
  obtain r p where rp: "parse_deployment_args ex_lib (needs_of None) ex_args_invalid = Inr r"
    "int (length (deployments r)) = max 0 (getattr (parallel ex_args_invalid) 1)"
    "K8sPod_init ex_lib [] ''2.1.0'' ex_args_invalid None = Inr p"
    "length (p_k8s_deployments p) = length (deployments r)"
    by blast
  have "deployments r = []" using rp(2) by (simp add: ex_args_invalid_def getattr_def)
  moreover from this rp(4) have "p_k8s_deployments p = []" by simp
  ultimately show ?thesis using h1 h2 h3 rp(1,3) by blast
qed

section \<open>One deployment unit: results\<close>


lemma deploy_calls_replicate_list: "deploy_calls (replicate k (ListNamespacedPod ns)) = []"
  by (induction k) simp_all

lemma close_result: "fst (close C u cs) = Inr ()"
  by (simp add: close_def Let_def split: delete_outcome.split)

lemma close_trace:
  "\<exists>lvl msg. snd (close C u cs) = cs @ [delete_call u, Log lvl (''close_'' @ d_name u) msg]
      \<and> (lvl = Success) = (delete_resp C (length cs) = Returns ''Success'')"
  by (simp add: close_def Let_def delete_call_def split: delete_outcome.split)

lemma close_non_log: "non_log (snd (close C u cs)) = non_log cs @ [delete_call u]"
  using close_trace [of C u cs] by (auto simp add: non_log_def delete_call_def)

text \<open>
  C6. For every unit, every trace before it (so also for a unit that was never started)
  and every behaviour of the cluster, in particular of the delete call (a success
  status, another status, or an exception), \<^verbatim>\<open>close\<close> returns normally. So does a
  second \<^verbatim>\<open>close\<close> of the same unit, and the \<^verbatim>\<open>close\<close> of another unit after it, whose
  delete call is made all the same. Each \<^verbatim>\<open>close\<close> makes exactly one delete call, for
  the unit's name in its namespace, and then writes one log entry, a success exactly
  when the call returned the status \<^verbatim>\<open>Success\<close>.
\<close>

theorem close_never_raises:
  "fst (close C u cs) = Inr ()
   \<and> fst (close C u (snd (close C u cs))) = Inr ()
   \<and> fst (close C v (snd (close C u cs))) = Inr ()
   \<and> non_log (snd (close C u cs)) = non_log cs @ [delete_call u]
   \<and> non_log (snd (close C v (snd (close C u cs)))) = non_log cs @ [delete_call u, delete_call v]
   \<and> (\<exists>lvl msg. snd (close C u cs) = cs @ [delete_call u, Log lvl (''close_'' @ d_name u) msg]
        \<and> (lvl = Success) = (delete_resp C (length cs) = Returns ''Success''))"
  using close_result close_trace [of C u cs] by (simp add: close_non_log)

text \<open>
  Polling only lists pods: what a wait adds to the trace, whether it has returned or
  not. A wait that has returned or raised has listed at least once; one that has not
  has used every listing it was allowed.
\<close>

lemma wait_loop_trace:
  "\<exists>k. snd (wait_loop fuel C u ips cs) = cs @ replicate k (ListNamespacedPod (d_k8s_namespace u))
      \<and> k \<le> fuel
      \<and> (fst (wait_loop fuel C u ips cs) = None \<longrightarrow> k = fuel)
      \<and> (fst (wait_loop fuel C u ips cs) \<noteq> None \<longrightarrow> 0 < k)"
proof (induction fuel arbitrary: ips cs)
  case 0
  then show ?case by simp
next
  case (Suc n)
  let ?L = "ListNamespacedPod (d_k8s_namespace u)"
  show ?case
  proof (cases "list_resp C (length cs)")
    case (ListRaises e)
    then have e: "wait_loop (Suc n) C u ips cs = (Some (Inl (ControlPlaneError e)), cs @ [?L])"
      by (simp add: Let_def)
    show ?thesis unfolding e by (intro exI [of _ "Suc 0"]) simp
  next
    case (Items items)
    show ?thesis
    proof (cases "scan_items u items ips")
      case (Inl e)
      with Items have e: "wait_loop (Suc n) C u ips cs = (Some (Inl e), cs @ [?L])"
        by (simp add: Let_def)
      show ?thesis unfolding e by (intro exI [of _ "Suc 0"]) simp
    next
      case (Inr bi)
      obtain b ips' where bi: "bi = (b, ips')" by (cases bi)
      show ?thesis
      proof (cases b)
        case True
        with Items Inr bi have e: "wait_loop (Suc n) C u ips cs = (Some (Inr ips'), cs @ [?L])"
          by (simp add: Let_def)
        show ?thesis unfolding e by (intro exI [of _ "Suc 0"]) simp
      next
        case False
        with Items Inr bi
        have w: "wait_loop (Suc n) C u ips cs = wait_loop n C u ips' (cs @ [?L])"
          by (simp add: Let_def)
        from Suc.IH [of ips' "cs @ [?L]"] obtain k where
          K: "snd (wait_loop n C u ips' (cs @ [?L])) = (cs @ [?L]) @ replicate k ?L
              \<and> k \<le> n
              \<and> (fst (wait_loop n C u ips' (cs @ [?L])) = None \<longrightarrow> k = n)
              \<and> (fst (wait_loop n C u ips' (cs @ [?L])) \<noteq> None \<longrightarrow> 0 < k)" ..
        from K have k1: "snd (wait_loop n C u ips' (cs @ [?L])) = (cs @ [?L]) @ replicate k ?L"
          by (rule conjunct1)
        from K have k2: "k \<le> n" by (elim conjE)
        from K have k3: "fst (wait_loop n C u ips' (cs @ [?L])) = None \<longrightarrow> k = n"
          by (elim conjE)
        have a: "snd (wait_loop n C u ips' (cs @ [?L])) = cs @ replicate (Suc k) ?L"
          unfolding k1 by simp
        have b: "Suc k \<le> Suc n" using k2 by simp
        have c: "fst (wait_loop n C u ips' (cs @ [?L])) = None \<longrightarrow> Suc k = Suc n"
          using k3 by simp
        have d: "fst (wait_loop n C u ips' (cs @ [?L])) \<noteq> None \<longrightarrow> 0 < Suc k" by simp
        show ?thesis unfolding w using a b c d by (intro exI [of _ "Suc k"] conjI)
      qed
    qed
  qed
qed

lemma wait_start_success_fst:
  "fst (wait_start_success fuel C u cs) = map_option (map_sum id (\<lambda>_. ())) (fst (wait_loop fuel C u {||} cs))"
  by (simp add: wait_start_success_def split: prod.split option.split sum.split)

lemma wait_start_success_snd:
  "snd (wait_start_success fuel C u cs) = snd (wait_loop fuel C u {||} cs)"
  by (simp add: wait_start_success_def split: prod.split option.split sum.split)

lemma wait_start_success_trace:
  "\<exists>k. snd (wait_start_success fuel C u cs)
          = cs @ replicate k (ListNamespacedPod (d_k8s_namespace u))
      \<and> k \<le> fuel
      \<and> (fst (wait_start_success fuel C u cs) = None \<longrightarrow> k = fuel)
      \<and> (fst (wait_start_success fuel C u cs) \<noteq> None \<longrightarrow> 0 < k)"
  using wait_loop_trace [of fuel C u "{||}" cs]
  by (auto simp add: wait_start_success_fst wait_start_success_snd)

text \<open>The deploy step of \<^verbatim>\<open>start\<close>: one call, with the values of the branch taken.\<close>

lemma deploy_step_trace:
  "\<exists>r d. (if d_name u = ''gateway'' then deploy_gateway L C u cs else deploy_runtime L C u cs)
            = (r, cs @ [DeployService d])
     \<and> dc_name d = (if d_name u = ''gateway'' then d_name u else d_dns_name u)
     \<and> dc_namespace d = d_k8s_namespace u
     \<and> dc_replicas d = (if d_name u = ''gateway'' then 1 else d_num_replicas u)
     \<and> dc_pull_policy d = (if d_name u = ''gateway'' then ''Always'' else ''IfNotPresent'')"
  by (simp add: deploy_gateway_def deploy_runtime_def deploy_service_def Let_def
        split: option.split)

text \<open>
  What \<^verbatim>\<open>start\<close> has done to the cluster, in every mode and whether or not it has
  returned: the deploy call, then list calls only.
\<close>

lemma start_trace:
  "\<exists>d k. snd (start L fuel C u cs)
            = cs @ DeployService d # replicate k (ListNamespacedPod (d_k8s_namespace u))
     \<and> dc_name d = (if d_name u = ''gateway'' then d_name u else d_dns_name u)
     \<and> dc_namespace d = d_k8s_namespace u
     \<and> dc_replicas d = (if d_name u = ''gateway'' then 1 else d_num_replicas u)
     \<and> dc_pull_policy d = (if d_name u = ''gateway'' then ''Always'' else ''IfNotPresent'')"
proof -
  obtain r0 d where d:
    "(if d_name u = ''gateway'' then deploy_gateway L C u cs else deploy_runtime L C u cs)
       = (r0, cs @ [DeployService d])"
    "dc_name d = (if d_name u = ''gateway'' then d_name u else d_dns_name u)"
    "dc_namespace d = d_k8s_namespace u"
    "dc_replicas d = (if d_name u = ''gateway'' then 1 else d_num_replicas u)"
    "dc_pull_policy d = (if d_name u = ''gateway'' then ''Always'' else ''IfNotPresent'')"
    using deploy_step_trace [of u L C cs] by blast
  have "\<exists>k. snd (start L fuel C u cs)
               = cs @ DeployService d # replicate k (ListNamespacedPod (d_k8s_namespace u))"
  proof (cases r0)
    case (Inl e)
    with d(1) have "snd (start L fuel C u cs) = cs @ [DeployService d]"
      by (simp add: start_def)
    then show ?thesis by (intro exI [of _ 0]) simp
  next
    case (Inr x)
    show ?thesis
    proof (cases "noblock_on_start (d_common_args u)")
      case True
      with d(1) Inr have "snd (start L fuel C u cs) = cs @ [DeployService d]"
        by (simp add: start_def)
      then show ?thesis by (intro exI [of _ 0]) simp
    next
      case False
      with d(1) Inr
      have "start L fuel C u cs = wait_start_success fuel C u (cs @ [DeployService d])"
        by (simp add: start_def)
      moreover from wait_start_success_trace [of fuel C u "cs @ [DeployService d]"]
      obtain k where
        "snd (wait_start_success fuel C u (cs @ [DeployService d]))
           = (cs @ [DeployService d]) @ replicate k (ListNamespacedPod (d_k8s_namespace u))"
        by (elim exE conjE)
      ultimately have "snd (start L fuel C u cs)
           = cs @ DeployService d # replicate k (ListNamespacedPod (d_k8s_namespace u))"
        by simp
      then show ?thesis by blast
    qed
  qed
  with d(2-5) show ?thesis by blast
qed

lemma start_noblock_returns:
  "noblock_on_start (d_common_args u) \<Longrightarrow> fst (start L fuel C u cs) \<noteq> None"
  by (simp add: start_def split: prod.split sum.split)

text \<open>
  The scan of one listing against the readiness criterion: the set only grows, by IPs
  of running pods of the unit; a scan that does not return has added all of them, and a
  scan returns exactly when the count is reached.
\<close>

lemma running_ips_Nil [simp]: "running_ips u [] = {||}"
  by (simp add: running_ips_def)

lemma running_ips_Cons:
  "running_ips u (p # ps) =
     (if labels p ''app'' = Some (d_name u) \<and> phase p = ''Running''
      then finsert (pod_ip p) (running_ips u ps) else running_ips u ps)"
  by (simp add: running_ips_def)

lemma scan_items_sound:
  "scan_items u items ips = Inr (b, ips') \<Longrightarrow>
     ips |\<subseteq>| ips' \<and> ips' |\<subseteq>| ips |\<union>| running_ips u items
     \<and> (\<not> b \<longrightarrow> ips' = ips |\<union>| running_ips u items)
     \<and> (b \<longrightarrow> int (fcard ips') = d_num_replicas u \<and> 0 < d_num_replicas u)"
proof (induction items arbitrary: ips)
  case Nil
  then show ?case by auto
next
  case (Cons p ps)
  show ?case
  proof (cases "labels p ''app''")
    case None
    with Cons.prems show ?thesis by simp
  next
    case (Some a)
    show ?thesis
    proof (cases "a = d_name u \<and> phase p = ''Running''")
      case False
      with Some Cons.prems have "scan_items u ps ips = Inr (b, ips')" by auto
      from Cons.IH [OF this] False Some show ?thesis by (auto simp add: running_ips_Cons)
    next
      case True
      show ?thesis
      proof (cases "int (fcard (finsert (pod_ip p) ips)) = d_num_replicas u")
        case hit: True
        with True Some Cons.prems have e: "b" "ips' = finsert (pod_ip p) ips"
          by (auto simp add: Let_def)
        have "0 < fcard (finsert (pod_ip p) ips)"
          by (subst fcard_finsert) simp
        with hit have "0 < d_num_replicas u" by linarith
        with e hit True Some show ?thesis by (auto simp add: running_ips_Cons)
      next
        case miss: False
        with True Some Cons.prems
        have "scan_items u ps (finsert (pod_ip p) ips) = Inr (b, ips')"
          by (auto simp add: Let_def)
        from Cons.IH [OF this] True Some show ?thesis
          by (auto simp add: running_ips_Cons)
      qed
    qed
  qed
qed

lemma scan_items_labelled:
  assumes "list_all (\<lambda>p. labels p ''app'' \<noteq> None) items"
      and "int (fcard ips) < d_num_replicas u"
  shows "\<exists>ips'. scan_items u items ips =
           Inr (d_num_replicas u \<le> int (fcard (ips |\<union>| running_ips u items)), ips')"
  using assms
proof (induction items arbitrary: ips)
  case Nil
  then show ?case by simp
next
  case (Cons p ps)
  from Cons.prems(1) obtain a where a: "labels p ''app'' = Some a" by auto
  from Cons.prems(1) have ps: "list_all (\<lambda>p. labels p ''app'' \<noteq> None) ps" by simp
  show ?case
  proof (cases "a = d_name u \<and> phase p = ''Running''")
    case False
    with a Cons.IH [OF ps Cons.prems(2)] show ?thesis
      by (auto simp add: running_ips_Cons)
  next
    case True
    let ?ips1 = "finsert (pod_ip p) ips"
    have un: "ips |\<union>| running_ips u (p # ps) = ?ips1 |\<union>| running_ips u ps"
      using True a by (simp add: running_ips_Cons)
    show ?thesis
    proof (cases "int (fcard ?ips1) = d_num_replicas u")
      case hit: True
      have "fcard ?ips1 \<le> fcard (?ips1 |\<union>| running_ips u ps)"
        by (rule fcard_mono) auto
      with hit have "d_num_replicas u \<le> int (fcard (ips |\<union>| running_ips u (p # ps)))"
        by (simp add: un)
      with hit True a show ?thesis by (simp add: Let_def)
    next
      case miss: False
      have "fcard ?ips1 \<le> Suc (fcard ips)" by (simp add: fcard_finsert_if)
      with miss Cons.prems(2) have lt: "int (fcard ?ips1) < d_num_replicas u" by linarith
      from Cons.IH [OF ps lt] obtain ips' where
        "scan_items u ps ?ips1 =
           Inr (d_num_replicas u \<le> int (fcard (?ips1 |\<union>| running_ips u ps)), ips')"
        by blast
      with miss True a un show ?thesis by (simp add: Let_def)
    qed
  qed
qed

lemma wait_loop_step_trace:
  "wait_loop fuel C u ips (cs @ [c]) \<noteq> (Some r, cs @ [c'])"
proof
  assume a: "wait_loop fuel C u ips (cs @ [c]) = (Some r, cs @ [c'])"
  from wait_loop_trace [of fuel C u ips "cs @ [c]"] obtain k where
    K: "snd (wait_loop fuel C u ips (cs @ [c]))
          = (cs @ [c]) @ replicate k (ListNamespacedPod (d_k8s_namespace u))
        \<and> k \<le> fuel
        \<and> (fst (wait_loop fuel C u ips (cs @ [c])) = None \<longrightarrow> k = fuel)
        \<and> (fst (wait_loop fuel C u ips (cs @ [c])) \<noteq> None \<longrightarrow> 0 < k)" ..
  from K have k1: "snd (wait_loop fuel C u ips (cs @ [c]))
          = (cs @ [c]) @ replicate k (ListNamespacedPod (d_k8s_namespace u))"
    by (rule conjunct1)
  from K have k4: "fst (wait_loop fuel C u ips (cs @ [c])) \<noteq> None \<longrightarrow> 0 < k"
    by (elim conjE)
  from k1 k4 have "cs @ [c'] = (cs @ [c]) @ replicate k (ListNamespacedPod (d_k8s_namespace u))"
    and "0 < k"
    unfolding a by simp_all
  then have "length (cs @ [c'])
               = length ((cs @ [c]) @ replicate k (ListNamespacedPod (d_k8s_namespace u)))"
    and "0 < k"
    by simp_all
  then show False by (simp del: append_assoc)
qed

lemma wait_loop_returns:
  assumes "int (fcard ips) < d_num_replicas u"
      and "\<forall>j\<le>k. labelled (list_resp C (length cs + j))"
  shows "(\<exists>ips'. wait_loop fuel C u ips cs =
            (Some (Inr ips'), cs @ replicate (Suc k) (ListNamespacedPod (d_k8s_namespace u))))
       = (k < fuel
          \<and> int (fcard (ips |\<union>| observed C u (length cs) k)) < d_num_replicas u
          \<and> d_num_replicas u \<le> int (fcard (ips |\<union>| observed C u (length cs) (Suc k))))"
  using assms
proof (induction fuel arbitrary: ips cs k)
  case 0
  then show ?case by simp
next
  case (Suc f)
  let ?L = "ListNamespacedPod (d_k8s_namespace u)"
  from Suc.prems(2) have "labelled (list_resp C (length cs))" by force
  then obtain items where items: "list_resp C (length cs) = Items items"
    and lab: "list_all (\<lambda>p. labels p ''app'' \<noteq> None) items"
    by (cases "list_resp C (length cs)") auto
  let ?hit = "d_num_replicas u \<le> int (fcard (ips |\<union>| running_ips u items))"
  from scan_items_labelled [OF lab Suc.prems(1)] obtain ips1 where
    scan: "scan_items u items ips = Inr (?hit, ips1)" by blast
  show ?case
  proof (cases ?hit)
    case True
    then have w: "wait_loop (Suc f) C u ips cs = (Some (Inr ips1), cs @ [?L])"
      using items scan by (simp add: Let_def)
    show ?thesis
    proof (cases k)
      case 0
      with w True Suc.prems(1) items show ?thesis by simp
    next
      case (Suc k')
      have "ips |\<union>| running_ips u items |\<subseteq>| ips |\<union>| observed C u (length cs) (Suc k')"
        using items by auto
      from fcard_mono [OF this] True
      have "\<not> int (fcard (ips |\<union>| observed C u (length cs) k)) < d_num_replicas u"
        using Suc by simp
      with w Suc show ?thesis by simp
    qed
  next
    case False
    from scan_items_sound [OF scan] False have ips1: "ips1 = ips |\<union>| running_ips u items"
      by simp
    have w: "wait_loop (Suc f) C u ips cs = wait_loop f C u ips1 (cs @ [?L])"
      using items scan False by (simp add: Let_def)
    show ?thesis
    proof (cases k)
      case 0
      with w False items show ?thesis by (simp add: wait_loop_step_trace)
    next
      case (Suc k')
      have lt: "int (fcard ips1) < d_num_replicas u" using False ips1 by simp
      have lb: "\<forall>j\<le>k'. labelled (list_resp C (length (cs @ [?L]) + j))"
      proof (intro allI impI)
        fix j assume "j \<le> k'"
        with Suc have "Suc j \<le> k" by simp
        with Suc.prems(2) have "labelled (list_resp C (length cs + Suc j))" by blast
        then show "labelled (list_resp C (length (cs @ [?L]) + j))" by simp
      qed
      from Suc.IH [OF lt lb]
      have "(\<exists>ips'. wait_loop f C u ips1 (cs @ [?L]) =
                (Some (Inr ips'), (cs @ [?L]) @ replicate (Suc k') ?L))
          = (k' < f
             \<and> int (fcard (ips1 |\<union>| observed C u (length (cs @ [?L])) k')) < d_num_replicas u
             \<and> d_num_replicas u \<le> int (fcard (ips1 |\<union>| observed C u (length (cs @ [?L])) (Suc k'))))" .
      moreover have "(cs @ [?L]) @ replicate (Suc k') ?L = cs @ replicate (Suc k) ?L"
        using Suc by simp
      moreover have "ips1 |\<union>| observed C u (length (cs @ [?L])) k' = ips |\<union>| observed C u (length cs) k"
        using Suc ips1 items by (simp add: funion_assoc)
      moreover have "ips1 |\<union>| observed C u (length (cs @ [?L])) (Suc k')
                       = ips |\<union>| observed C u (length cs) (Suc k)"
        using Suc ips1 items by (simp add: funion_assoc)
      ultimately show ?thesis using w Suc by simp
    qed
  qed
qed

lemma wait_loop_positive:
  "wait_loop fuel C u ips cs = (Some (Inr ips'), cs') \<Longrightarrow> 0 < d_num_replicas u"
proof (induction fuel arbitrary: ips cs)
  case 0
  then show ?case by simp
next
  case (Suc f)
  from Suc.prems obtain items where items: "list_resp C (length cs) = Items items"
    by (cases "list_resp C (length cs)") (auto simp add: Let_def)
  from Suc.prems items obtain b ips1 where scan: "scan_items u items ips = Inr (b, ips1)"
    by (cases "scan_items u items ips") (auto simp add: Let_def)
  show ?case
  proof (cases b)
    case True
    with scan_items_sound [OF scan] show ?thesis by simp
  next
    case False
    with Suc.prems items scan
    have "wait_loop f C u ips1 (cs @ [ListNamespacedPod (d_k8s_namespace u)]) = (Some (Inr ips'), cs')"
      by (simp add: Let_def)
    then show ?thesis by (rule Suc.IH)
  qed
qed

lemma wait_start_success_eq:
  "(wait_start_success fuel C u cs = (Some (Inr ()), cs'))
     = (\<exists>ips'. wait_loop fuel C u {||} cs = (Some (Inr ips'), cs'))"
  by (auto simp add: wait_start_success_def split: option.splits sum.splits prod.splits)

lemma wait_loop_pending:
  assumes "int (fcard (ips |\<union>| observed C u (length cs) fuel)) < d_num_replicas u"
      and "\<forall>j<fuel. labelled (list_resp C (length cs + j))"
  shows "wait_loop fuel C u ips cs
           = (None, cs @ replicate fuel (ListNamespacedPod (d_k8s_namespace u)))"
  using assms
proof (induction fuel arbitrary: ips cs)
  case 0
  then show ?case by simp
next
  case (Suc f)
  let ?L = "ListNamespacedPod (d_k8s_namespace u)"
  from Suc.prems(2) have "labelled (list_resp C (length cs))" by force
  then obtain items where items: "list_resp C (length cs) = Items items"
    and lab: "list_all (\<lambda>p. labels p ''app'' \<noteq> None) items"
    by (cases "list_resp C (length cs)") auto
  have "ips |\<subseteq>| ips |\<union>| observed C u (length cs) (Suc f)" by auto
  from fcard_mono [OF this] Suc.prems(1) have lt: "int (fcard ips) < d_num_replicas u"
    by linarith
  have "ips |\<union>| running_ips u items |\<subseteq>| ips |\<union>| observed C u (length cs) (Suc f)"
    using items by auto
  from fcard_mono [OF this] Suc.prems(1)
  have miss: "\<not> d_num_replicas u \<le> int (fcard (ips |\<union>| running_ips u items))"
    by linarith
  from scan_items_labelled [OF lab lt] miss obtain ips1 where
    scan: "scan_items u items ips = Inr (False, ips1)" by auto
  from scan_items_sound [OF scan] have ips1: "ips1 = ips |\<union>| running_ips u items" by simp
  have "int (fcard (ips1 |\<union>| observed C u (length (cs @ [?L])) f)) < d_num_replicas u"
    using Suc.prems(1) ips1 items by (simp add: funion_assoc)
  moreover have "\<forall>j<f. labelled (list_resp C (length (cs @ [?L]) + j))"
  proof (intro allI impI)
    fix j assume "j < f"
    then have "Suc j < Suc f" by simp
    with Suc.prems(2) have "labelled (list_resp C (length cs + Suc j))" by blast
    then show "labelled (list_resp C (length (cs @ [?L]) + j))" by simp
  qed
  ultimately have "wait_loop f C u ips1 (cs @ [?L]) = (None, (cs @ [?L]) @ replicate f ?L)"
    by (rule Suc.IH)
  with items scan show ?case by (simp add: Let_def)
qed

lemma wait_start_success_iff:
  assumes "\<forall>j\<le>k. labelled (list_resp C (length cs + j))"
  shows "(wait_start_success fuel C u cs =
            (Some (Inr ()), cs @ replicate (Suc k) (ListNamespacedPod (d_k8s_namespace u))))
       = (k < fuel
          \<and> int (fcard (observed C u (length cs) k)) < d_num_replicas u
          \<and> d_num_replicas u \<le> int (fcard (observed C u (length cs) (Suc k))))"
proof (cases "0 < d_num_replicas u")
  case True
  then have "int (fcard ({||} :: string fset)) < d_num_replicas u"
    by (simp add: fcard_fempty)
  from wait_loop_returns [OF this assms, of fuel] show ?thesis
    by (simp add: wait_start_success_eq)
next
  case False
  then have "\<not> int (fcard (observed C u (length cs) k)) < d_num_replicas u" by simp
  moreover have "wait_start_success fuel C u cs \<noteq>
            (Some (Inr ()), cs @ replicate (Suc k) (ListNamespacedPod (d_k8s_namespace u)))"
    using False wait_loop_positive [of fuel C u "{||}" cs]
    by (auto simp add: wait_start_success_eq)
  ultimately show ?thesis by simp
qed

text \<open>
  C7. Take a run of \<^verbatim>\<open>wait_start_success\<close> that starts after the trace \<open>cs\<close>, on a
  cluster whose first \<open>k + 1\<close> listings answer with pods that all carry the label
  \<^verbatim>\<open>app\<close>. The method returns during listing \<open>k + 1\<close> (having made exactly \<open>k + 1\<close>
  list calls) exactly when the set of distinct IPs of the pods listed as \<^verbatim>\<open>Running\<close>
  under the unit's name reaches the unit's replica count during that listing: it is
  below the count after \<open>k\<close> listings and at least the count after \<open>k + 1\<close>. In
  particular, when the first two listings show no running pod of the unit and the third
  shows as many distinct IPs as the replica count (at least one), the method returns
  during the third listing, given three listings or more, and within fewer it has not
  returned and has only listed.
\<close>

theorem wait_start_success_returns_when_ready:
  "((\<forall>j\<le>k. labelled (list_resp C (length cs + j))) \<longrightarrow>
      (wait_start_success fuel C u cs =
         (Some (Inr ()), cs @ replicate (Suc k) (ListNamespacedPod (d_k8s_namespace u))))
      = (k < fuel
         \<and> int (fcard (observed C u (length cs) k)) < d_num_replicas u
         \<and> d_num_replicas u \<le> int (fcard (observed C u (length cs) (Suc k)))))
   \<and> (1 \<le> d_num_replicas u
       \<and> (\<forall>j<2. labelled (list_resp C (length cs + j))
              \<and> running_ips u (items_of (list_resp C (length cs + j))) = {||})
       \<and> labelled (list_resp C (length cs + 2))
       \<and> int (fcard (running_ips u (items_of (list_resp C (length cs + 2))))) = d_num_replicas u
      \<longrightarrow> wait_start_success fuel C u cs =
            (if 3 \<le> fuel
             then (Some (Inr ()), cs @ replicate 3 (ListNamespacedPod (d_k8s_namespace u)))
             else (None, cs @ replicate fuel (ListNamespacedPod (d_k8s_namespace u)))))"
proof (intro conjI impI)
  assume "\<forall>j\<le>k. labelled (list_resp C (length cs + j))"
  then show "(wait_start_success fuel C u cs =
         (Some (Inr ()), cs @ replicate (Suc k) (ListNamespacedPod (d_k8s_namespace u))))
      = (k < fuel
         \<and> int (fcard (observed C u (length cs) k)) < d_num_replicas u
         \<and> d_num_replicas u \<le> int (fcard (observed C u (length cs) (Suc k))))"
    by (rule wait_start_success_iff)
next
  assume a: "1 \<le> d_num_replicas u
       \<and> (\<forall>j<2. labelled (list_resp C (length cs + j))
              \<and> running_ips u (items_of (list_resp C (length cs + j))) = {||})
       \<and> labelled (list_resp C (length cs + 2))
       \<and> int (fcard (running_ips u (items_of (list_resp C (length cs + 2))))) = d_num_replicas u"
  let ?t = "length cs"
  from a have q: "labelled (list_resp C (?t + j))
      \<and> running_ips u (items_of (list_resp C (?t + j))) = {||}" if "j < 2" for j
    using that by blast
  from q [of 0] have l0: "labelled (list_resp C ?t)"
    and e0: "running_ips u (items_of (list_resp C ?t)) = {||}"
    by simp_all
  from q [of "Suc 0"] have l1: "labelled (list_resp C (Suc ?t))"
    and e1: "running_ips u (items_of (list_resp C (Suc ?t))) = {||}"
    by simp_all
  from a have l2: "labelled (list_resp C (Suc (Suc ?t)))"
    and e2: "int (fcard (running_ips u (items_of (list_resp C (Suc (Suc ?t)))))) = d_num_replicas u"
    by (simp_all add: numeral_2_eq_2)
  have o1: "observed C u ?t (Suc 0) = {||}" using e0 by simp
  have o2: "observed C u ?t (Suc (Suc 0)) = {||}" using e0 e1 by simp
  have o3: "observed C u ?t (Suc (Suc (Suc 0))) = running_ips u (items_of (list_resp C (Suc (Suc ?t))))"
    using e0 e1 by simp
  show "wait_start_success fuel C u cs =
            (if 3 \<le> fuel
             then (Some (Inr ()), cs @ replicate 3 (ListNamespacedPod (d_k8s_namespace u)))
             else (None, cs @ replicate fuel (ListNamespacedPod (d_k8s_namespace u))))"
  proof (cases "3 \<le> fuel")
    case True
    have lab: "\<forall>j\<le>Suc (Suc 0). labelled (list_resp C (?t + j))"
    proof (intro allI impI)
      fix j assume "j \<le> Suc (Suc 0)"
      then have "j = 0 \<or> j = Suc 0 \<or> j = Suc (Suc 0)" by arith
      with l0 l1 l2 show "labelled (list_resp C (?t + j))" by auto
    qed
    from wait_start_success_iff [OF lab, of fuel u] True a o2 o3 e2
    have "wait_start_success fuel C u cs =
            (Some (Inr ()), cs @ replicate (Suc (Suc (Suc 0))) (ListNamespacedPod (d_k8s_namespace u)))"
      by (simp add: fcard_fempty)
    with True show ?thesis by (simp add: numeral_3_eq_3)
  next
    case False
    then have "fuel = 0 \<or> fuel = Suc 0 \<or> fuel = Suc (Suc 0)" by arith
    then have o: "observed C u ?t fuel = {||}" using o1 o2 by auto
    have lab: "\<forall>j<fuel. labelled (list_resp C (?t + j))"
    proof (intro allI impI)
      fix j assume "j < fuel"
      with False have "j = 0 \<or> j = Suc 0" by arith
      with l0 l1 show "labelled (list_resp C (?t + j))" by auto
    qed
    have "int (fcard ({||} |\<union>| observed C u ?t fuel)) < d_num_replicas u"
      using o a by (simp add: fcard_fempty)
    from wait_loop_pending [OF this lab]
    have "wait_start_success fuel C u cs
            = (None, cs @ replicate fuel (ListNamespacedPod (d_k8s_namespace u)))"
      by (simp add: wait_start_success_def)
    with False show ?thesis by simp
  qed
qed

text \<open>The example unit and what its criterion sees in the example listings.\<close>

lemma ex_unit_fields:
  "d_name ex_unit = ''image_data-0''" "d_num_replicas ex_unit = 2"
  "d_k8s_namespace ex_unit = ''test-flow''" "d_dns_name ex_unit = ''image-data-0''"
  "noblock_on_start (d_common_args ex_unit)"
  by (simp_all add: ex_unit_def K8sDeployment_init_def ex_args_def getattr_def ex_lib_def)

lemma ex_running_ips:
  "running_ips ex_unit [ex_pod_info ''Pending'' ip] = {||}"
  "running_ips ex_unit [ex_pod_info ''Running'' ip] = {|ip|}"
  "running_ips ex_unit [ex_pod_info ''Running'' ip, ex_pod_info ''Running'' ip'] = {|ip, ip'|}"
  by (simp_all add: running_ips_def ex_pod_info_def ex_unit_fields)

theorem wait_start_success_returns_when_ready_witness:
  "labelled (list_resp ex_cluster 0) \<and> labelled (list_resp ex_cluster 1)
   \<and> labelled (list_resp ex_cluster 2)
   \<and> 1 \<le> d_num_replicas ex_unit
   \<and> running_ips ex_unit (items_of (list_resp ex_cluster 0)) = {||}
   \<and> running_ips ex_unit (items_of (list_resp ex_cluster 1)) = {||}
   \<and> int (fcard (running_ips ex_unit (items_of (list_resp ex_cluster 2))))
        = d_num_replicas ex_unit
   \<and> wait_start_success 5 ex_cluster ex_unit [] =
        (Some (Inr ()), replicate 3 (ListNamespacedPod ''test-flow''))
   \<and> wait_start_success 2 ex_cluster ex_unit []
        = (None, replicate 2 (ListNamespacedPod ''test-flow''))
   \<and> int (fcard (observed ex_cluster ex_unit 0 2)) < 2
   \<and> 2 \<le> int (fcard (observed ex_cluster ex_unit 0 3))"
proof -
  let ?t = "length ([] :: call list)"
  have lab: "labelled (list_resp ex_cluster t)" for t
    by (simp add: ex_cluster_def ex_pod_info_def)
  have h1: "\<forall>j\<le>2. labelled (list_resp ex_cluster (?t + j))" using lab by blast
  have h2: "1 \<le> d_num_replicas ex_unit" by (simp add: ex_unit_fields)
  have h3: "\<forall>j<2. running_ips ex_unit (items_of (list_resp ex_cluster (?t + j))) = {||}"
    by (simp add: ex_cluster_def ex_running_ips)
  have h4: "int (fcard (running_ips ex_unit (items_of (list_resp ex_cluster (?t + 2)))))
              = d_num_replicas ex_unit"
    by (simp add: ex_cluster_def ex_running_ips ex_unit_fields fcard_finsert_if fcard_fempty)
  have pre: "1 \<le> d_num_replicas ex_unit
       \<and> (\<forall>j<2. labelled (list_resp ex_cluster (?t + j))
              \<and> running_ips ex_unit (items_of (list_resp ex_cluster (?t + j))) = {||})
       \<and> labelled (list_resp ex_cluster (?t + 2))
       \<and> int (fcard (running_ips ex_unit (items_of (list_resp ex_cluster (?t + 2)))))
            = d_num_replicas ex_unit"
    using h2 h3 h4 lab by blast
  note T5 = wait_start_success_returns_when_ready
              [where C = ex_cluster and u = ex_unit and cs = "[]" and fuel = 5 and k = 2]
  note T2 = wait_start_success_returns_when_ready
              [where C = ex_cluster and u = ex_unit and cs = "[]" and fuel = 2 and k = 2]
  from T5 pre have w5: "wait_start_success 5 ex_cluster ex_unit [] =
        (Some (Inr ()), replicate 3 (ListNamespacedPod ''test-flow''))"
    by (simp add: ex_unit_fields)
  from T2 pre have w2: "wait_start_success 2 ex_cluster ex_unit []
        = (None, replicate 2 (ListNamespacedPod ''test-flow''))"
    by (simp add: ex_unit_fields)
  from T5 h1 w5 have "int (fcard (observed ex_cluster ex_unit ?t 2)) < d_num_replicas ex_unit
      \<and> d_num_replicas ex_unit \<le> int (fcard (observed ex_cluster ex_unit ?t (Suc 2)))"
    by (simp add: ex_unit_fields numeral_3_eq_3)
  then have ob: "int (fcard (observed ex_cluster ex_unit 0 2)) < 2
      \<and> 2 \<le> int (fcard (observed ex_cluster ex_unit 0 3))"
    by (simp add: ex_unit_fields)
  have e0: "running_ips ex_unit (items_of (list_resp ex_cluster 0)) = {||}"
    and e1: "running_ips ex_unit (items_of (list_resp ex_cluster 1)) = {||}"
    by (simp_all add: ex_cluster_def ex_running_ips)
  have e2: "int (fcard (running_ips ex_unit (items_of (list_resp ex_cluster 2))))
        = d_num_replicas ex_unit"
    by (simp add: ex_cluster_def ex_running_ips ex_unit_fields fcard_finsert_if fcard_fempty)
  from lab [of 0] lab [of 1] lab [of 2] h2 e0 e1 e2 w5 w2 ob show ?thesis
    by (intro conjI) simp_all
qed

lemma ex_gateway_fields:
  "d_name ex_gateway = ''gateway''" "d_num_replicas ex_gateway = 2"
  "noblock_on_start (d_common_args ex_gateway)"
  "d_name ex_blocking_gateway = ''gateway''" "d_num_replicas ex_blocking_gateway = 2"
  "\<not> noblock_on_start (d_common_args ex_blocking_gateway)"
  "d_k8s_namespace ex_blocking_gateway = ''test-flow''"
  "d_name ex_blocking_unit = ''image_data-0''" "d_num_replicas ex_blocking_unit = 2"
  "\<not> noblock_on_start (d_common_args ex_blocking_unit)"
  "d_k8s_namespace ex_blocking_unit = ''test-flow''"
  "d_dns_name ex_blocking_unit = ''image-data-0''"
  by (simp_all add: ex_gateway_def ex_blocking_gateway_def ex_blocking_unit_def
        K8sDeployment_init_def ex_args_def getattr_def ex_lib_def)

text \<open>On a cluster that never lists a pod, a wait for two replicas does not return.\<close>

lemma ex_never_waits:
  "d_num_replicas u = 2 \<Longrightarrow> fst (wait_start_success 3 ex_never u cs) = None"
  by (simp add: wait_start_success_def numeral_3_eq_3 Let_def ex_never_def)

text \<open>
  C8. Whatever the mode, the cluster and the number of listings allowed, and whether
  or not \<^verbatim>\<open>start\<close> has returned, \<^verbatim>\<open>start\<close> has made exactly one deploy call: for the
  unit named \<^verbatim>\<open>gateway\<close> with one replica and the pull policy \<^verbatim>\<open>Always\<close>, whatever
  replica count the unit holds, and for every other unit with the unit's replica count
  and the pull policy \<^verbatim>\<open>IfNotPresent\<close>. In deferred mode \<^verbatim>\<open>start\<close> always returns or
  raises.
\<close>

theorem start_replicas_and_pull_policy:
  "map (\<lambda>d. (dc_replicas d, dc_pull_policy d))
       (deploy_calls (drop (length cs) (snd (start L fuel C u cs))))
     = [if d_name u = ''gateway'' then (1, ''Always'')
        else (d_num_replicas u, ''IfNotPresent'')]
   \<and> (noblock_on_start (d_common_args u) \<longrightarrow> fst (start L fuel C u cs) \<noteq> None)"
proof (intro conjI impI)
  from start_trace [of L fuel C u cs] obtain d k where
    "snd (start L fuel C u cs)
       = cs @ DeployService d # replicate k (ListNamespacedPod (d_k8s_namespace u))"
    "dc_replicas d = (if d_name u = ''gateway'' then 1 else d_num_replicas u)"
    "dc_pull_policy d = (if d_name u = ''gateway'' then ''Always'' else ''IfNotPresent'')"
    by blast
  then show "map (\<lambda>d. (dc_replicas d, dc_pull_policy d))
       (deploy_calls (drop (length cs) (snd (start L fuel C u cs))))
     = [if d_name u = ''gateway'' then (1, ''Always'')
        else (d_num_replicas u, ''IfNotPresent'')]"
    by (simp add: deploy_calls_replicate_list)
next
  assume "noblock_on_start (d_common_args u)"
  then show "fst (start L fuel C u cs) \<noteq> None" by (rule start_noblock_returns)
qed

theorem start_replicas_and_pull_policy_witness:
  "noblock_on_start (d_common_args ex_gateway) \<and> d_num_replicas ex_gateway = 2
   \<and> fst (start ex_lib 0 ex_cluster ex_gateway []) \<noteq> None
   \<and> map (\<lambda>d. (dc_replicas d, dc_pull_policy d))
        (deploy_calls (drop (length ([] :: call list)) (snd (start ex_lib 0 ex_cluster ex_gateway []))))
       = [(1, ''Always'')]
   \<and> \<not> noblock_on_start (d_common_args ex_blocking_gateway)
   \<and> d_num_replicas ex_blocking_gateway = 2
   \<and> fst (start ex_lib 3 ex_never ex_blocking_gateway []) = None
   \<and> map (\<lambda>d. (dc_replicas d, dc_pull_policy d))
        (deploy_calls (drop (length ([] :: call list))
           (snd (start ex_lib 3 ex_never ex_blocking_gateway []))))
       = [(1, ''Always'')]
   \<and> fst (start ex_lib 3 ex_never ex_blocking_unit []) = None
   \<and> map (\<lambda>d. (dc_replicas d, dc_pull_policy d))
        (deploy_calls (drop (length ([] :: call list))
           (snd (start ex_lib 3 ex_never ex_blocking_unit []))))
       = [(2, ''IfNotPresent'')]"
proof -
  note G = start_replicas_and_pull_policy
             [where u = ex_gateway and L = ex_lib and fuel = 0 and C = ex_cluster and cs = "[]"]
  note B = start_replicas_and_pull_policy
             [where u = ex_blocking_gateway and L = ex_lib and fuel = 3 and C = ex_never
                and cs = "[]"]
  note U = start_replicas_and_pull_policy
             [where u = ex_blocking_unit and L = ex_lib and fuel = 3 and C = ex_never
                and cs = "[]"]
  from G ex_gateway_fields(3) have g1: "fst (start ex_lib 0 ex_cluster ex_gateway []) \<noteq> None"
    by (elim conjE impE)
  from G have g2: "map (\<lambda>d. (dc_replicas d, dc_pull_policy d))
        (deploy_calls (drop (length ([] :: call list)) (snd (start ex_lib 0 ex_cluster ex_gateway []))))
       = [(1, ''Always'')]"
    by (simp add: ex_gateway_fields)
  from B have b2: "map (\<lambda>d. (dc_replicas d, dc_pull_policy d))
        (deploy_calls (drop (length ([] :: call list))
           (snd (start ex_lib 3 ex_never ex_blocking_gateway []))))
       = [(1, ''Always'')]"
    by (simp add: ex_gateway_fields)
  from U have u2: "map (\<lambda>d. (dc_replicas d, dc_pull_policy d))
        (deploy_calls (drop (length ([] :: call list))
           (snd (start ex_lib 3 ex_never ex_blocking_unit []))))
       = [(2, ''IfNotPresent'')]"
    by (simp add: ex_gateway_fields)
  have dr: "deploy_resp ex_never t = None" for t by (simp add: ex_never_def)
  have b1: "fst (start ex_lib 3 ex_never ex_blocking_gateway []) = None"
    by (simp add: start_def deploy_gateway_def deploy_service_def dr ex_gateway_fields
          ex_never_waits)
  have u1: "fst (start ex_lib 3 ex_never ex_blocking_unit []) = None"
    by (simp add: start_def deploy_runtime_def deploy_service_def dr ex_gateway_fields
          ex_never_waits Let_def)
  from ex_gateway_fields(3) ex_gateway_fields(2) g1 g2 ex_gateway_fields(6) ex_gateway_fields(5)
    b1 b2 u1 u2
  show ?thesis by (intro conjI)
qed

lemma wait_loop_keeps_observed:
  "wait_loop fuel C u ips cs =
     (Some (Inr ips'), cs @ replicate (Suc k) (ListNamespacedPod (d_k8s_namespace u)))
   \<Longrightarrow> ips |\<union>| observed C u (length cs) k |\<subseteq>| ips'"
proof (induction fuel arbitrary: ips cs k)
  case 0
  then show ?case by simp
next
  case (Suc f)
  let ?L = "ListNamespacedPod (d_k8s_namespace u)"
  from Suc.prems obtain items where items: "list_resp C (length cs) = Items items"
    by (cases "list_resp C (length cs)") (auto simp add: Let_def)
  from Suc.prems items obtain b ips1 where scan: "scan_items u items ips = Inr (b, ips1)"
    by (cases "scan_items u items ips") (auto simp add: Let_def)
  show ?case
  proof (cases b)
    case True
    with Suc.prems items scan have "ips1 = ips'" "cs @ [?L] = cs @ replicate (Suc k) ?L"
      by (simp_all add: Let_def)
    then have "k = 0" "ips1 = ips'" by simp_all
    with scan_items_sound [OF scan] show ?thesis by simp
  next
    case False
    with Suc.prems items scan
    have w: "wait_loop f C u ips1 (cs @ [?L]) = (Some (Inr ips'), cs @ replicate (Suc k) ?L)"
      by (simp add: Let_def)
    from scan_items_sound [OF scan] False have ips1: "ips1 = ips |\<union>| running_ips u items"
      by simp
    show ?thesis
    proof (cases k)
      case 0
      with w show ?thesis by (simp add: wait_loop_step_trace)
    next
      case (Suc k')
      with w have "wait_loop f C u ips1 (cs @ [?L]) =
          (Some (Inr ips'), (cs @ [?L]) @ replicate (Suc k') ?L)"
        by simp
      from Suc.IH [OF this] have "ips1 |\<union>| observed C u (length (cs @ [?L])) k' |\<subseteq>| ips'" .
      with Suc ips1 items show ?thesis by (simp add: funion_assoc)
    qed
  qed
qed

lemma wait_loop_grows:
  "wait_loop fuel C u ips cs = (Some (Inr ips'), cs') \<Longrightarrow> ips |\<subseteq>| ips'"
proof -
  assume w: "wait_loop fuel C u ips cs = (Some (Inr ips'), cs')"
  from wait_loop_trace [of fuel C u ips cs] obtain k where
    K: "snd (wait_loop fuel C u ips cs) = cs @ replicate k (ListNamespacedPod (d_k8s_namespace u))
        \<and> k \<le> fuel
        \<and> (fst (wait_loop fuel C u ips cs) = None \<longrightarrow> k = fuel)
        \<and> (fst (wait_loop fuel C u ips cs) \<noteq> None \<longrightarrow> 0 < k)" ..
  from K have k1: "snd (wait_loop fuel C u ips cs)
                     = cs @ replicate k (ListNamespacedPod (d_k8s_namespace u))"
    by (rule conjunct1)
  from K have k4: "fst (wait_loop fuel C u ips cs) \<noteq> None \<longrightarrow> 0 < k" by (elim conjE)
  from k1 k4 have "cs' = cs @ replicate k (ListNamespacedPod (d_k8s_namespace u))" and "0 < k"
    unfolding w by simp_all
  then obtain k' where "cs' = cs @ replicate (Suc k') (ListNamespacedPod (d_k8s_namespace u))"
    by (cases k) simp_all
  with w wait_loop_keeps_observed [of fuel C u ips cs ips' k'] show ?thesis by simp
qed

lemma ex_churn_wait:
  "wait_loop 2 ex_churn ex_unit {||} [] =
     (Some (Inr {|''10.0.0.2'', ''10.0.0.1''|}), replicate 2 (ListNamespacedPod ''test-flow''))"
  by (simp add: numeral_2_eq_2 Let_def ex_churn_def ex_pod_info_def ex_unit_fields
        fcard_finsert_if fcard_fempty)

text \<open>
  C9. The set of collected IPs is created once, before the loop, and only grows: a scan
  of one listing returns a superset of the set it was given, the loop hands that set to
  the next listing, and the set held when the method returns contains whatever the
  loop held at any earlier point and every IP listed as running in any earlier listing.
  So the method can return although no listing ever shows as many running pods as the
  replica count: with two replicas wanted and a cluster that lists one running pod
  first and a different single running pod from then on, it returns during the second
  listing.
\<close>

theorem pod_ips_only_grow:
  "(\<forall>b ips'. scan_items u items ips = Inr (b, ips') \<longrightarrow> ips |\<subseteq>| ips')
   \<and> (\<forall>ips' cs'. wait_loop fuel C u ips cs = (Some (Inr ips'), cs') \<longrightarrow> ips |\<subseteq>| ips')
   \<and> (\<forall>ips' k. wait_loop fuel C u {||} cs =
                  (Some (Inr ips'), cs @ replicate (Suc k) (ListNamespacedPod (d_k8s_namespace u)))
        \<longrightarrow> observed C u (length cs) k |\<subseteq>| ips')
   \<and> d_num_replicas ex_unit = 2
   \<and> (\<forall>t. fcard (running_ips ex_unit (items_of (list_resp ex_churn t))) = 1)
   \<and> wait_start_success 2 ex_churn ex_unit [] =
        (Some (Inr ()), replicate 2 (ListNamespacedPod ''test-flow''))"
proof (intro conjI allI impI)
  fix b ips'
  assume "scan_items u items ips = Inr (b, ips')"
  from scan_items_sound [OF this] show "ips |\<subseteq>| ips'" by simp
next
  fix ips' cs'
  assume "wait_loop fuel C u ips cs = (Some (Inr ips'), cs')"
  then show "ips |\<subseteq>| ips'" by (rule wait_loop_grows)
next
  fix ips' k
  assume "wait_loop fuel C u {||} cs =
            (Some (Inr ips'), cs @ replicate (Suc k) (ListNamespacedPod (d_k8s_namespace u)))"
  from wait_loop_keeps_observed [OF this] show "observed C u (length cs) k |\<subseteq>| ips'"
    by simp
next
  show "d_num_replicas ex_unit = 2" by (simp add: ex_unit_fields)
next
  fix t
  show "fcard (running_ips ex_unit (items_of (list_resp ex_churn t))) = 1"
    by (simp add: ex_churn_def ex_running_ips fcard_finsert_if fcard_fempty)
next
  show "wait_start_success 2 ex_churn ex_unit [] =
        (Some (Inr ()), replicate 2 (ListNamespacedPod ''test-flow''))"
    by (simp add: wait_start_success_def ex_churn_wait)
qed

theorem pod_ips_only_grow_witness:
  "scan_items ex_unit [ex_pod_info ''Running'' ''10.0.0.2''] {|''10.0.0.1''|}
     = Inr (True, {|''10.0.0.1'', ''10.0.0.2''|})
   \<and> {|''10.0.0.1''|} |\<subseteq>| {|''10.0.0.1'', ''10.0.0.2''|}
   \<and> wait_loop 2 ex_churn ex_unit {||} [] =
       (Some (Inr {|''10.0.0.2'', ''10.0.0.1''|}), replicate 2 (ListNamespacedPod ''test-flow''))
   \<and> observed ex_churn ex_unit 0 1 |\<subseteq>| {|''10.0.0.1'', ''10.0.0.2''|}
   \<and> observed ex_churn ex_unit 0 1 = {|''10.0.0.1''|}"
proof -
  have sc: "scan_items ex_unit [ex_pod_info ''Running'' ''10.0.0.2''] {|''10.0.0.1''|}
     = Inr (True, {|''10.0.0.2'', ''10.0.0.1''|})"
    by (simp add: ex_pod_info_def ex_unit_fields fcard_finsert_if fcard_fempty)
  have eq: "{|''10.0.0.2'', ''10.0.0.1''|} = {|''10.0.0.1'', ''10.0.0.2''|}"
    by (rule finsert_commute)
  note T = pod_ips_only_grow
    [where u = ex_unit and items = "[ex_pod_info ''Running'' ''10.0.0.2'']"
       and ips = "{|''10.0.0.1''|}" and fuel = 2 and C = ex_churn and cs = "[]"]
  from T sc have g: "{|''10.0.0.1''|} |\<subseteq>| {|''10.0.0.2'', ''10.0.0.1''|}" by blast
  have w: "wait_loop 2 ex_churn ex_unit {||} [] =
      (Some (Inr {|''10.0.0.2'', ''10.0.0.1''|}),
            [] @ replicate (Suc 1) (ListNamespacedPod (d_k8s_namespace ex_unit)))"
    by (simp only: ex_churn_wait ex_unit_fields append_Nil Suc_1)
  from T w have o: "observed ex_churn ex_unit (length ([] :: call list)) 1
                      |\<subseteq>| {|''10.0.0.2'', ''10.0.0.1''|}"
    by blast
  have o1: "observed ex_churn ex_unit 0 1 = {|''10.0.0.1''|}"
    by (simp add: ex_churn_def ex_running_ips)
  from sc eq g o o1 show ?thesis by (simp add: ex_churn_wait)
qed

lemma non_log_append: "non_log (xs @ ys) = non_log xs @ non_log ys"
  by (simp add: non_log_def)

lemma close_appends:
  "\<exists>lvl msg. snd (close C u cs) = cs @ [delete_call u, Log lvl (''close_'' @ d_name u) msg]"
  using close_trace [of C u cs] by (elim exE conjE) (intro exI)

text \<open>
  Pods under another label are not counted: a scan of a listing whose pods all carry
  a label other than the unit's name leaves the set as it is, and a wait on a cluster
  that lists such pods only never returns.
\<close>

lemma scan_items_other_label:
  assumes "\<forall>p \<in> set items. labels p ''app'' = Some a" and "a \<noteq> d_name u"
  shows "scan_items u items ips = Inr (False, ips)"
  using assms by (induction items) simp_all

lemma wait_loop_other_label:
  assumes "\<forall>t. \<forall>p \<in> set (items_of (list_resp C t)). labels p ''app'' = Some a"
      and "a \<noteq> d_name u"
  shows "fst (wait_loop fuel C u ips cs) \<noteq> Some (Inr ips')"
proof (induction fuel arbitrary: cs)
  case 0
  show ?case by simp
next
  case (Suc n)
  let ?L = "ListNamespacedPod (d_k8s_namespace u)"
  show ?case
  proof (cases "list_resp C (length cs)")
    case (ListRaises e)
    then have e: "wait_loop (Suc n) C u ips cs = (Some (Inl (ControlPlaneError e)), cs @ [?L])"
      by (simp add: Let_def)
    show ?thesis unfolding e by simp
  next
    case (Items items)
    from assms(1) have "\<forall>p \<in> set (items_of (list_resp C (length cs))). labels p ''app'' = Some a"
      by (rule spec)
    with Items have "\<forall>p \<in> set items. labels p ''app'' = Some a" by simp
    from scan_items_other_label [OF this assms(2)]
    have "scan_items u items ips = Inr (False, ips)" .
    with Items have w: "wait_loop (Suc n) C u ips cs = wait_loop n C u ips (cs @ [?L])"
      by (simp add: Let_def)
    show ?thesis unfolding w by (rule Suc.IH)
  qed
qed

lemma wait_start_success_other_label:
  assumes "\<forall>t. \<forall>p \<in> set (items_of (list_resp C t)). labels p ''app'' = Some a"
      and "a \<noteq> d_name u"
  shows "fst (wait_start_success fuel C u cs) \<noteq> Some (Inr ())"
proof
  assume "fst (wait_start_success fuel C u cs) = Some (Inr ())"
  then have "wait_start_success fuel C u cs = (Some (Inr ()), snd (wait_start_success fuel C u cs))"
    by (simp add: prod_eq_iff)
  then obtain ips' where
    "wait_loop fuel C u {||} cs = (Some (Inr ips'), snd (wait_start_success fuel C u cs))"
    unfolding wait_start_success_eq ..
  then have "fst (wait_loop fuel C u {||} cs) = Some (Inr ips')" by simp
  with wait_loop_other_label [OF assms] show False by simp
qed

text \<open>
  C10. Take a unit built by the constructor under a name other than \<^verbatim>\<open>gateway\<close>. In
  every mode, and whether or not \<^verbatim>\<open>start\<close> has returned, the one deploy call that
  \<^verbatim>\<open>start\<close> has made names the service by the DNS form of the unit's name. \<^verbatim>\<open>close\<close>
  deletes the deployment under the unit's name as given, and the readiness scan counts
  a pod exactly when its label \<^verbatim>\<open>app\<close> is the name as given (and its phase is
  \<^verbatim>\<open>Running\<close>). Hence the delete call names what the deploy call created exactly when
  the name is its own DNS form; a running pod labelled with the name that the deploy
  call created under is counted exactly in that case; and when the name is not its own
  DNS form, a wait on a cluster that lists only pods so labelled never returns.
\<close>

theorem runtime_unit_names:
  assumes "nm \<noteq> ''gateway''"
      and "u = K8sDeployment_init L nm hpi tpo zid ver sid common dargs"
  shows "map (\<lambda>d. (dc_name d, dc_namespace d))
             (deploy_calls (drop (length cs) (snd (start L fuel C u cs))))
           = [(to_dns_name L nm, k8s_namespace common)]
     \<and> non_log (drop (length cs1) (snd (close C u cs1)))
           = [DeleteNamespacedDeployment nm (k8s_namespace common)]
     \<and> scan_items u [p] {||}
           = (case labels p ''app'' of
                None \<Rightarrow> Inl (KeyError ''app'')
              | Some a \<Rightarrow>
                  if a = nm \<and> phase p = ''Running''
                  then Inr (d_num_replicas u = 1, {|pod_ip p|})
                  else Inr (False, {||}))
     \<and> ((non_log (drop (length cs1) (snd (close C u cs1)))
            = map (\<lambda>d. DeleteNamespacedDeployment (dc_name d) (dc_namespace d))
                (deploy_calls (drop (length cs) (snd (start L fuel C u cs)))))
          = (to_dns_name L nm = nm))
     \<and> (labels p ''app'' = Some (to_dns_name L nm) \<and> phase p = ''Running'' \<longrightarrow>
          scan_items u [p] {||}
            = (if to_dns_name L nm = nm then Inr (d_num_replicas u = 1, {|pod_ip p|})
               else Inr (False, {||})))
     \<and> (to_dns_name L nm \<noteq> nm
          \<and> (\<forall>t. \<forall>q \<in> set (items_of (list_resp C t)). labels q ''app'' = Some (to_dns_name L nm))
         \<longrightarrow> fst (wait_start_success fuel C u cs2) \<noteq> Some (Inr ()))"
proof -
  have f: "d_name u = nm" "d_dns_name u = to_dns_name L nm" "d_k8s_namespace u = k8s_namespace common"
    using assms(2) by (simp_all add: K8sDeployment_init_def)
  from start_trace [of L fuel C u cs] obtain d k where
    D: "snd (start L fuel C u cs)
          = cs @ DeployService d # replicate k (ListNamespacedPod (d_k8s_namespace u))
        \<and> dc_name d = (if d_name u = ''gateway'' then d_name u else d_dns_name u)
        \<and> dc_namespace d = d_k8s_namespace u
        \<and> dc_replicas d = (if d_name u = ''gateway'' then 1 else d_num_replicas u)
        \<and> dc_pull_policy d = (if d_name u = ''gateway'' then ''Always'' else ''IfNotPresent'')"
    by (elim exE)
  from D have tr: "snd (start L fuel C u cs)
          = cs @ DeployService d # replicate k (ListNamespacedPod (d_k8s_namespace u))"
    by (rule conjunct1)
  from D f assms(1) have d: "dc_name d = to_dns_name L nm" "dc_namespace d = k8s_namespace common"
    by simp_all
  have dep: "deploy_calls (drop (length cs) (snd (start L fuel C u cs))) = [d]"
    unfolding tr by (simp add: deploy_calls_replicate_list)
  from close_appends [of C u cs1] obtain lvl msg where
    "snd (close C u cs1) = cs1 @ [delete_call u, Log lvl (''close_'' @ d_name u) msg]"
    by (elim exE)
  then have del: "non_log (drop (length cs1) (snd (close C u cs1)))
           = [DeleteNamespacedDeployment nm (k8s_namespace common)]"
    using f by (simp add: non_log_def delete_call_def)
  have sc: "scan_items u [p] {||}
           = (case labels p ''app'' of
                None \<Rightarrow> Inl (KeyError ''app'')
              | Some a \<Rightarrow>
                  if a = nm \<and> phase p = ''Running''
                  then Inr (d_num_replicas u = 1, {|pod_ip p|})
                  else Inr (False, {||}))"
    using f by (simp add: Let_def fcard_finsert_if fcard_fempty split: option.split)
  have iff: "(non_log (drop (length cs1) (snd (close C u cs1)))
            = map (\<lambda>d. DeleteNamespacedDeployment (dc_name d) (dc_namespace d))
                (deploy_calls (drop (length cs) (snd (start L fuel C u cs)))))
          = (to_dns_name L nm = nm)"
    unfolding dep del using d by auto
  have rd: "labels p ''app'' = Some (to_dns_name L nm) \<and> phase p = ''Running'' \<longrightarrow>
          scan_items u [p] {||}
            = (if to_dns_name L nm = nm then Inr (d_num_replicas u = 1, {|pod_ip p|})
               else Inr (False, {||}))"
    unfolding sc by auto
  have nv: "to_dns_name L nm \<noteq> nm
          \<and> (\<forall>t. \<forall>q \<in> set (items_of (list_resp C t)). labels q ''app'' = Some (to_dns_name L nm))
         \<longrightarrow> fst (wait_start_success fuel C u cs2) \<noteq> Some (Inr ())"
  proof
    assume a: "to_dns_name L nm \<noteq> nm
          \<and> (\<forall>t. \<forall>q \<in> set (items_of (list_resp C t)). labels q ''app'' = Some (to_dns_name L nm))"
    from a have a1: "to_dns_name L nm \<noteq> d_name u" unfolding f by (rule conjunct1)
    from a have a2: "\<forall>t. \<forall>q \<in> set (items_of (list_resp C t)).
                        labels q ''app'' = Some (to_dns_name L nm)"
      by (rule conjunct2)
    from wait_start_success_other_label [OF a2 a1]
    show "fst (wait_start_success fuel C u cs2) \<noteq> Some (Inr ())" .
  qed
  from dep del sc iff rd nv d show ?thesis by simp
qed

theorem runtime_unit_names_witness:
  "''image_data-0'' \<noteq> ''gateway''
   \<and> ex_blocking_unit
        = K8sDeployment_init ex_lib ''image_data-0'' 8081 8082 [] ''master'' None
            (ex_args\<lparr>noblock_on_start := False\<rparr>) (ex_args\<lparr>noblock_on_start := False\<rparr>)
   \<and> to_dns_name ex_lib ''image_data-0'' = ''image-data-0''
   \<and> labels (ex_running ''image-data-0'' ''10.0.0.1'') ''app'' = Some ''image-data-0''
   \<and> phase (ex_running ''image-data-0'' ''10.0.0.1'') = ''Running''
   \<and> items_of (list_resp ex_dns_labels 0)
        = [ex_running ''image-data-0'' ''10.0.0.1'', ex_running ''image-data-0'' ''10.0.0.2'']
   \<and> fst (start ex_lib 3 ex_dns_labels ex_blocking_unit []) = None
   \<and> map (\<lambda>d. (dc_name d, dc_namespace d))
         (deploy_calls (drop (length ([] :: call list))
            (snd (start ex_lib 3 ex_dns_labels ex_blocking_unit []))))
       = [(''image-data-0'', ''test-flow'')]
   \<and> non_log (drop (length ([] :: call list)) (snd (close ex_dns_labels ex_blocking_unit [])))
       = [DeleteNamespacedDeployment ''image_data-0'' ''test-flow'']
   \<and> scan_items ex_blocking_unit [ex_running ''image-data-0'' ''10.0.0.1''] {||}
       = Inr (False, {||})
   \<and> fst (wait_start_success 3 ex_dns_labels ex_blocking_unit []) \<noteq> Some (Inr ())"
proof -
  have h1: "''image_data-0'' \<noteq> ''gateway''" by simp
  have h2: "ex_blocking_unit
        = K8sDeployment_init ex_lib ''image_data-0'' 8081 8082 [] ''master'' None
            (ex_args\<lparr>noblock_on_start := False\<rparr>) (ex_args\<lparr>noblock_on_start := False\<rparr>)"
    by (simp add: ex_blocking_unit_def)
  have dns: "to_dns_name ex_lib ''image_data-0'' = ''image-data-0''"
    by (simp add: ex_lib_def)
  have ns: "k8s_namespace (ex_args\<lparr>noblock_on_start := False\<rparr>) = ''test-flow''"
    by (simp add: ex_args_def)
  have lb: "labels (ex_running ''image-data-0'' ''10.0.0.1'') ''app'' = Some ''image-data-0''"
    and ph: "phase (ex_running ''image-data-0'' ''10.0.0.1'') = ''Running''"
    by (simp_all add: ex_running_def)
  have it: "items_of (list_resp ex_dns_labels t)
        = [ex_running ''image-data-0'' ''10.0.0.1'', ex_running ''image-data-0'' ''10.0.0.2'']"
    for t
    by (simp add: ex_dns_labels_def)
  have all: "\<forall>t. \<forall>q \<in> set (items_of (list_resp ex_dns_labels t)).
               labels q ''app'' = Some (to_dns_name ex_lib ''image_data-0'')"
    by (simp add: it dns ex_running_def)
  note T = runtime_unit_names [OF h1 h2, where C = ex_dns_labels and fuel = 3 and cs = "[]"
             and ?cs1.0 = "[]" and ?cs2.0 = "[]" and p = "ex_running ''image-data-0'' ''10.0.0.1''"]
  from T have a: "map (\<lambda>d. (dc_name d, dc_namespace d))
         (deploy_calls (drop (length ([] :: call list))
            (snd (start ex_lib 3 ex_dns_labels ex_blocking_unit []))))
       = [(''image-data-0'', ''test-flow'')]"
    unfolding dns ns by (rule conjunct1)
  from T have b: "non_log (drop (length ([] :: call list)) (snd (close ex_dns_labels ex_blocking_unit [])))
       = [DeleteNamespacedDeployment ''image_data-0'' ''test-flow'']"
    unfolding dns ns by (elim conjE)
  from T lb ph have c: "scan_items ex_blocking_unit [ex_running ''image-data-0'' ''10.0.0.1''] {||}
       = Inr (False, {||})"
    unfolding dns by simp
  from T all have d: "fst (wait_start_success 3 ex_dns_labels ex_blocking_unit []) \<noteq> Some (Inr ())"
    unfolding dns by simp
  have dr: "deploy_resp ex_dns_labels t = None" for t by (simp add: ex_dns_labels_def)
  have w: "fst (wait_start_success 3 ex_dns_labels ex_blocking_unit cs) = None" for cs
    by (simp add: wait_start_success_def numeral_3_eq_3 Let_def ex_dns_labels_def
          ex_running_def ex_gateway_fields)
  have e: "fst (start ex_lib 3 ex_dns_labels ex_blocking_unit []) = None"
    by (simp add: start_def deploy_runtime_def deploy_service_def dr ex_gateway_fields w Let_def)
  from h1 h2 dns lb ph it [of 0] e a b c d show ?thesis by (intro conjI)
qed

section \<open>The Pod: results\<close>

lemma close_eq:
  "\<exists>lvl msg. close C u cs = (Inr (), cs @ [delete_call u, Log lvl (''close_'' @ d_name u) msg])"
  by (simp add: close_def Let_def delete_call_def split: delete_outcome.split)

lemma unwind_trace:
  "\<exists>ext. unwind C us pend cs = (pend, cs @ ext) \<and> non_log ext = map delete_call us"
proof (induction us arbitrary: cs)
  case Nil
  then show ?case by (simp add: non_log_def)
next
  case (Cons u us)
  from close_eq [of C u cs] obtain lvl msg where
    c: "close C u cs = (Inr (), cs @ [delete_call u, Log lvl (''close_'' @ d_name u) msg])"
    by blast
  let ?cs1 = "cs @ [delete_call u, Log lvl (''close_'' @ d_name u) msg]"
  from Cons.IH [of ?cs1] obtain ext where
    e: "unwind C us pend ?cs1 = (pend, ?cs1 @ ext)" "non_log ext = map delete_call us"
    by blast
  have "unwind C (u # us) pend cs
          = (pend, cs @ ([delete_call u, Log lvl (''close_'' @ d_name u) msg] @ ext))"
    using c e(1) by simp
  moreover have "non_log ([delete_call u, Log lvl (''close_'' @ d_name u) msg] @ ext)
                   = map delete_call (u # us)"
    using e(2) by (simp add: non_log_def delete_call_def)
  ultimately show ?case by blast
qed

lemma K8sPod_close_trace:
  "\<exists>ext. K8sPod_close C p cs = (Inr (), p\<lparr>p_exit_callbacks := []\<rparr>, cs @ ext)
      \<and> non_log ext = map delete_call (p_exit_callbacks p)"
proof -
  from unwind_trace [of C "p_exit_callbacks p" None cs] obtain ext where
    "unwind C (p_exit_callbacks p) None cs = (None, cs @ ext)"
    "non_log ext = map delete_call (p_exit_callbacks p)"
    by blast
  then show ?thesis by (auto simp add: K8sPod_close_def)
qed





lemma ex_pod_init: "K8sPod_init ex_lib [] ''2.1.0'' ex_args None = Inr ex_pod"
  by (simp add: K8sPod_init_def parse_deployment_args_def ex_args_def ex_lib_def Let_def
        getattr_def attr_def py_or_def needs_of_def build_shards_def
        shard_name_def str_nat.simps digit_char_def enumerate_eq_zip upt_rec numeral_3_eq_3
        ex_pod_def ex_head_def ex_tail_def ex_shard_def get_base_executor_version_def)

lemma ex_unit_names:
  "d_name ex_head = ''image_data-head''" "d_name ex_tail = ''image_data-tail''"
  "d_name (ex_shard nm) = nm"
  "deployed_as ex_head = ''image-data-head''" "deployed_as ex_tail = ''image-data-tail''"
  "d_k8s_namespace ex_head = ''test-flow''" "d_k8s_namespace ex_tail = ''test-flow''"
  "d_k8s_namespace (ex_shard nm) = ''test-flow''"
  "d_num_replicas ex_head = 2" "d_num_replicas (ex_shard nm) = 2" "d_num_replicas ex_tail = 2"
  "noblock_on_start (d_common_args ex_head)" "noblock_on_start (d_common_args ex_tail)"
  "noblock_on_start (d_common_args (ex_shard nm))"
  by (simp_all add: ex_head_def ex_tail_def ex_shard_def K8sDeployment_init_def ex_args_def
        ex_lib_def deployed_as_def getattr_def)








lemma wait_each_single: "wait_each fuel C [u] cs = wait_start_success fuel C u cs"
  by (auto split: option.splits sum.splits prod.splits)

lemma wait_each_append:
  "wait_each fuel C (xs @ ys) cs =
     (case wait_each fuel C xs cs of
        (None, cs') \<Rightarrow> (None, cs')
      | (Some (Inl e), cs') \<Rightarrow> (Some (Inl e), cs')
      | (Some (Inr _), cs') \<Rightarrow> wait_each fuel C ys cs')"
  by (induction xs arbitrary: cs) (auto split: option.splits sum.splits prod.splits)

lemma wait_body_eq: "wait_body fuel C p cs = wait_each fuel C (units_in_order p) cs"
  by (auto simp add: wait_body_def units_in_order_def wait_each_append wait_each_single
        split: option.splits sum.splits prod.splits)

lemma wait_each_fails:
  "wait_each fuel C us cs = (Some (Inl e), cs1) \<Longrightarrow>
     \<exists>pre u post csm. us = pre @ u # post
        \<and> wait_each fuel C pre cs = (Some (Inr ()), csm)
        \<and> wait_start_success fuel C u csm = (Some (Inl e), cs1)"
proof (induction us arbitrary: cs)
  case Nil
  then show ?case by simp
next
  case (Cons u us)
  obtain r cs' where rc: "wait_start_success fuel C u cs = (r, cs')"
    by (cases "wait_start_success fuel C u cs")
  show ?case
  proof (cases r)
    case None
    with rc Cons.prems show ?thesis by simp
  next
    case (Some x)
    show ?thesis
    proof (cases x)
      case (Inl e')
      with Some rc Cons.prems have w: "wait_start_success fuel C u cs = (Some (Inl e), cs1)"
        by simp
      have "u # us = [] @ u # us" by simp
      moreover have "wait_each fuel C [] cs = (Some (Inr ()), cs)" by simp
      ultimately show ?thesis
        using w
        by - (rule exI [of _ "[]"], rule exI [of _ u], rule exI [of _ us], rule exI [of _ cs],
              (intro conjI; assumption))
    next
      case (Inr y)
      with Some rc Cons.prems have "wait_each fuel C us cs' = (Some (Inl e), cs1)" by simp
      from Cons.IH [OF this] obtain pre v post csm where
        v: "us = pre @ v # post \<and> wait_each fuel C pre cs' = (Some (Inr ()), csm)
              \<and> wait_start_success fuel C v csm = (Some (Inl e), cs1)"
        by (elim exE)
      from v have v1: "us = pre @ v # post" by (elim conjE)
      from v have v2: "wait_each fuel C pre cs' = (Some (Inr ()), csm)" by (elim conjE)
      from v have v3: "wait_start_success fuel C v csm = (Some (Inl e), cs1)" by (elim conjE)
      have a: "wait_each fuel C (u # pre) cs = (Some (Inr ()), csm)"
        using Some rc Inr v2 by simp
      have b: "u # us = (u # pre) @ v # post" using v1 by simp
      show ?thesis
        using b a v3
        by - (rule exI [of _ "u # pre"], rule exI [of _ v], rule exI [of _ post],
              rule exI [of _ csm], (intro conjI; assumption))
    qed
  qed
qed

text \<open>
  C5. For a Pod in deferred mode, \<^verbatim>\<open>wait_start_success\<close> waits for the units one
  after the other in the order head, shards, tail. When one of these waits raises, the
  units before it in that order have been waited for with success and none after it
  has been waited for; the Pod is then closed: the calls made after the failed wait,
  log entries aside, are exactly the delete calls of all units on the queue of exit
  callbacks, in the order of the queue, and the queue is empty afterwards; and the error
  that leaves the method is the one the failed wait raised. When every wait returns, the
  method returns and nothing is closed; while a wait has not returned, the method has
  not returned and nothing is closed.
\<close>

theorem wait_failure_closes_all:
  assumes "noblock_on_start (p_args p)"
  shows "wait_body fuel C p cs = wait_each fuel C (units_in_order p) cs
     \<and> (\<forall>e cs1. wait_body fuel C p cs = (Some (Inl e), cs1) \<longrightarrow>
          (\<exists>pre u post csm ext.
              units_in_order p = pre @ u # post
              \<and> wait_each fuel C pre cs = (Some (Inr ()), csm)
              \<and> wait_start_success fuel C u csm = (Some (Inl e), cs1)
              \<and> K8sPod_wait_start_success fuel C p cs
                   = (Some (Inl e), p\<lparr>p_exit_callbacks := []\<rparr>, cs1 @ ext)
              \<and> non_log ext = map delete_call (p_exit_callbacks p)))
     \<and> (\<forall>cs1. wait_body fuel C p cs = (Some (Inr ()), cs1) \<longrightarrow>
          K8sPod_wait_start_success fuel C p cs = (Some (Inr ()), p, cs1))
     \<and> (\<forall>cs1. wait_body fuel C p cs = (None, cs1) \<longrightarrow>
          K8sPod_wait_start_success fuel C p cs = (None, p, cs1))"
proof (intro conjI allI impI)
  show "wait_body fuel C p cs = wait_each fuel C (units_in_order p) cs"
    by (rule wait_body_eq)
next
  fix e cs1
  assume f: "wait_body fuel C p cs = (Some (Inl e), cs1)"
  then have "wait_each fuel C (units_in_order p) cs = (Some (Inl e), cs1)"
    by (simp add: wait_body_eq)
  from wait_each_fails [OF this] obtain pre u post csm where
    s: "units_in_order p = pre @ u # post \<and> wait_each fuel C pre cs = (Some (Inr ()), csm)
          \<and> wait_start_success fuel C u csm = (Some (Inl e), cs1)"
    by (elim exE)
  from s have s1: "units_in_order p = pre @ u # post" by (elim conjE)
  from s have s2: "wait_each fuel C pre cs = (Some (Inr ()), csm)" by (elim conjE)
  from s have s3: "wait_start_success fuel C u csm = (Some (Inl e), cs1)" by (elim conjE)
  from K8sPod_close_trace [of C p cs1] obtain ext where
    c: "K8sPod_close C p cs1 = (Inr (), p\<lparr>p_exit_callbacks := []\<rparr>, cs1 @ ext)
          \<and> non_log ext = map delete_call (p_exit_callbacks p)"
    by (elim exE)
  from c have c1: "K8sPod_close C p cs1 = (Inr (), p\<lparr>p_exit_callbacks := []\<rparr>, cs1 @ ext)"
    by (rule conjunct1)
  from c have c2: "non_log ext = map delete_call (p_exit_callbacks p)" by (rule conjunct2)
  have w: "K8sPod_wait_start_success fuel C p cs
          = (Some (Inl e), p\<lparr>p_exit_callbacks := []\<rparr>, cs1 @ ext)"
    using assms f c1 by (simp add: K8sPod_wait_start_success_def)
  show "\<exists>pre u post csm ext.
              units_in_order p = pre @ u # post
              \<and> wait_each fuel C pre cs = (Some (Inr ()), csm)
              \<and> wait_start_success fuel C u csm = (Some (Inl e), cs1)
              \<and> K8sPod_wait_start_success fuel C p cs
                   = (Some (Inl e), p\<lparr>p_exit_callbacks := []\<rparr>, cs1 @ ext)
              \<and> non_log ext = map delete_call (p_exit_callbacks p)"
    using s1 s2 s3 w c2
    by - (rule exI [of _ pre], rule exI [of _ u], rule exI [of _ post], rule exI [of _ csm],
          rule exI [of _ ext], (intro conjI; assumption))
next
  fix cs1
  assume "wait_body fuel C p cs = (Some (Inr ()), cs1)"
  with assms show "K8sPod_wait_start_success fuel C p cs = (Some (Inr ()), p, cs1)"
    by (simp add: K8sPod_wait_start_success_def)
next
  fix cs1
  assume "wait_body fuel C p cs = (None, cs1)"
  with assms show "K8sPod_wait_start_success fuel C p cs = (None, p, cs1)"
    by (simp add: K8sPod_wait_start_success_def)
qed

lemma ex_failing_waits:
  "wait_start_success (Suc 0) ex_failing ex_head []
     = (Some (Inr ()), [ListNamespacedPod ''test-flow''])"
  "wait_start_success (Suc 0) ex_failing (ex_shard ''image_data-0'')
       [ListNamespacedPod ''test-flow'']
     = (Some (Inr ()), [ListNamespacedPod ''test-flow'', ListNamespacedPod ''test-flow''])"
  "wait_start_success (Suc 0) ex_failing (ex_shard ''image_data-1'')
       [ListNamespacedPod ''test-flow'', ListNamespacedPod ''test-flow'']
     = (Some (Inl (ControlPlaneError ''ApiException(500)'')),
        [ListNamespacedPod ''test-flow'', ListNamespacedPod ''test-flow'',
         ListNamespacedPod ''test-flow''])"
  by (simp_all add: wait_start_success_def Let_def ex_failing_def ex_running_def ex_unit_names
        fcard_finsert_if fcard_fempty)

lemma ex_started_units:
  "units_in_order ex_started =
     [ex_head, ex_shard ''image_data-0'', ex_shard ''image_data-1'', ex_shard ''image_data-2'',
      ex_tail]"
  by (simp add: units_in_order_def ex_started_def ex_pod_def)

lemma ex_failing_wait_body:
  "wait_body 1 ex_failing ex_started [] =
     (Some (Inl (ControlPlaneError ''ApiException(500)'')),
      [ListNamespacedPod ''test-flow'', ListNamespacedPod ''test-flow'',
       ListNamespacedPod ''test-flow''])"
  by (simp add: wait_body_eq ex_started_units ex_failing_waits)

theorem wait_failure_closes_all_witness:
  "noblock_on_start (p_args ex_started)
   \<and> wait_body 1 ex_failing ex_started [] =
       (Some (Inl (ControlPlaneError ''ApiException(500)'')),
        [ListNamespacedPod ''test-flow'', ListNamespacedPod ''test-flow'',
         ListNamespacedPod ''test-flow''])
   \<and> (\<exists>ext. K8sPod_wait_start_success 1 ex_failing ex_started [] =
         (Some (Inl (ControlPlaneError ''ApiException(500)'')),
          ex_started\<lparr>p_exit_callbacks := []\<rparr>,
          [ListNamespacedPod ''test-flow'', ListNamespacedPod ''test-flow'',
           ListNamespacedPod ''test-flow''] @ ext)
        \<and> non_log ext =
             [DeleteNamespacedDeployment ''image_data-head'' ''test-flow'',
              DeleteNamespacedDeployment ''image_data-0'' ''test-flow'',
              DeleteNamespacedDeployment ''image_data-1'' ''test-flow'',
              DeleteNamespacedDeployment ''image_data-2'' ''test-flow'',
              DeleteNamespacedDeployment ''image_data-tail'' ''test-flow''])"
proof -
  let ?L = "ListNamespacedPod ''test-flow''"
  let ?e = "ControlPlaneError ''ApiException(500)''"
  have h: "noblock_on_start (p_args ex_started)"
    by (simp add: ex_started_def ex_pod_def ex_args_def)
  note T = wait_failure_closes_all [OF h, where fuel = 1 and C = ex_failing and cs = "[]"]
  from T have "\<forall>e cs1. wait_body 1 ex_failing ex_started [] = (Some (Inl e), cs1) \<longrightarrow>
          (\<exists>pre u post csm ext.
              units_in_order ex_started = pre @ u # post
              \<and> wait_each 1 ex_failing pre [] = (Some (Inr ()), csm)
              \<and> wait_start_success 1 ex_failing u csm = (Some (Inl e), cs1)
              \<and> K8sPod_wait_start_success 1 ex_failing ex_started []
                   = (Some (Inl e), ex_started\<lparr>p_exit_callbacks := []\<rparr>, cs1 @ ext)
              \<and> non_log ext = map delete_call (p_exit_callbacks ex_started))"
    by (elim conjE)
  then have "\<exists>pre u post csm ext.
              units_in_order ex_started = pre @ u # post
              \<and> wait_each 1 ex_failing pre [] = (Some (Inr ()), csm)
              \<and> wait_start_success 1 ex_failing u csm = (Some (Inl ?e), [?L, ?L, ?L])
              \<and> K8sPod_wait_start_success 1 ex_failing ex_started []
                   = (Some (Inl ?e), ex_started\<lparr>p_exit_callbacks := []\<rparr>, [?L, ?L, ?L] @ ext)
              \<and> non_log ext = map delete_call (p_exit_callbacks ex_started)"
    using ex_failing_wait_body by (elim allE impE)
  then obtain ext where
    w: "K8sPod_wait_start_success 1 ex_failing ex_started []
          = (Some (Inl ?e), ex_started\<lparr>p_exit_callbacks := []\<rparr>, [?L, ?L, ?L] @ ext)"
    and n: "non_log ext = map delete_call (p_exit_callbacks ex_started)"
    by (elim exE conjE)
  from n have n': "non_log ext =
             [DeleteNamespacedDeployment ''image_data-head'' ''test-flow'',
              DeleteNamespacedDeployment ''image_data-0'' ''test-flow'',
              DeleteNamespacedDeployment ''image_data-1'' ''test-flow'',
              DeleteNamespacedDeployment ''image_data-2'' ''test-flow'',
              DeleteNamespacedDeployment ''image_data-tail'' ''test-flow'']"
    by (simp add: ex_started_def delete_call_def ex_unit_names)
  have "\<exists>ext. K8sPod_wait_start_success 1 ex_failing ex_started [] =
         (Some (Inl ?e), ex_started\<lparr>p_exit_callbacks := []\<rparr>, [?L, ?L, ?L] @ ext)
        \<and> non_log ext =
             [DeleteNamespacedDeployment ''image_data-head'' ''test-flow'',
              DeleteNamespacedDeployment ''image_data-0'' ''test-flow'',
              DeleteNamespacedDeployment ''image_data-1'' ''test-flow'',
              DeleteNamespacedDeployment ''image_data-2'' ''test-flow'',
              DeleteNamespacedDeployment ''image_data-tail'' ''test-flow'']"
    using w n' by - (rule exI [of _ ext], (intro conjI; assumption))
  with h ex_failing_wait_body show ?thesis by (intro conjI)
qed

end
